theory Spec2Isabelle
  imports Complex_Main "HOL-Library.Sublist"
begin

section \<open>Python values and exceptions\<close>

text \<open>
  The exceptions that the browser automation library, the sentiment library, the file
  system and the interpreter raise in the modelled code. All of them are subclasses of
  \<open>Exception\<close>.
\<close>

datatype error =
    TimeoutException
  | NoSuchElementException
  | WebDriverException
  | SessionNotCreatedException
  | NameError string
  | KeyError string
  | AttributeError
  | LookupError
  | TypeError
  | ValueError
  | FileNotFoundError

text \<open>
  The values that reach the functions of the repository: \<open>None\<close>, strings, the other
  built-in values an untyped caller may pass, and objects of other classes. Of such an
  object only its truth test matters here: \<open>PyObject (Inr b)\<close> is an object whose truth
  value is \<open>b\<close>, \<open>PyObject (Inl e)\<close> one whose truth test raises \<open>e\<close> (a data-frame
  column, a missing-value marker, an array of several elements). Strings are sequences
  of characters with code points below 256. Floats are modelled by real numbers.
\<close>

datatype pyval =
    PyNone
  | PyStr string
  | PyInt int
  | PyFloat real
  | PyBool bool
  | PyList "pyval list"
  | PyObject "error + bool"

text \<open>Python's truth test, as used by \<open>not text\<close>: it returns a truth value or raises.\<close>

fun truthy :: "pyval \<Rightarrow> error + bool" where
  "truthy PyNone = Inr False"
| "truthy (PyStr s) = Inr (s \<noteq> [])"
| "truthy (PyInt i) = Inr (i \<noteq> 0)"
| "truthy (PyFloat r) = Inr (r \<noteq> 0)"
| "truthy (PyBool b) = Inr b"
| "truthy (PyList xs) = Inr (xs \<noteq> [])"
| "truthy (PyObject t) = t"

text \<open>\<open>isinstance(text, str)\<close>.\<close>

fun isinstance_str :: "pyval \<Rightarrow> bool" where
  "isinstance_str (PyStr s) = True"
| "isinstance_str v = False"

section \<open>Sentiment analysis (Sentiment\_analyzer.py)\<close>

subsection \<open>\<open>_preprocess_text\<close>\<close>

text \<open>
  The capital letters below code point 256 are \<open>A\<close> to \<open>Z\<close> and the letters from 192
  to 222 other than the multiplication sign 215; the small letter is 32 further on.
\<close>

definition lower_char :: "char \<Rightarrow> char" where
  "lower_char c =
     (let n = (of_char c :: nat)
      in if (65 \<le> n \<and> n \<le> 90) \<or> (192 \<le> n \<and> n \<le> 222 \<and> n \<noteq> 215)
         then char_of (n + 32) else c)"

text \<open>\<open>text.lower()\<close>\<close>

definition lower :: "string \<Rightarrow> string" where
  "lower s = map lower_char s"

text \<open>
  The characters below code point 256 that \<open>\s\<close> and \<open>str.split()\<close> treat as
  whitespace: the controls 9 to 13 and 28 to 31, the space, the next-line control 133
  and the no-break space 160.
\<close>

definition is_space :: "char \<Rightarrow> bool" where
  "is_space c =
     (let n = (of_char c :: nat)
      in (9 \<le> n \<and> n \<le> 13) \<or> (28 \<le> n \<and> n \<le> 32) \<or> n = 133 \<or> n = 160)"

text \<open>
  The length of the match of \<open>http\S+|www\S+|https\S+\<close> at the start of the text, if
  there is one. The third alternative never decides: where it matches, the first one
  matches the same characters.
\<close>

definition url_match :: "string \<Rightarrow> nat option" where
  "url_match t =
     (if take 4 t = ''http'' \<and> takeWhile (\<lambda>c. \<not> is_space c) (drop 4 t) \<noteq> []
      then Some (4 + length (takeWhile (\<lambda>c. \<not> is_space c) (drop 4 t)))
      else if take 3 t = ''www'' \<and> takeWhile (\<lambda>c. \<not> is_space c) (drop 3 t) \<noteq> []
      then Some (3 + length (takeWhile (\<lambda>c. \<not> is_space c) (drop 3 t)))
      else None)"

text \<open>\<open>re.sub(r'http\S+|www\S+|https\S+', '', text)\<close>: every match is deleted, scanning
  from the left.\<close>

function remove_urls :: "string \<Rightarrow> string" where
  "remove_urls t =
     (case url_match t of
        Some n \<Rightarrow> remove_urls (drop n t)
      | None \<Rightarrow> (case t of [] \<Rightarrow> [] | c # cs \<Rightarrow> c # remove_urls cs))"
  by pat_completeness auto
termination
proof (relation "measure length")
  show "wf (measure length)" by simp
next
  fix t :: string and n :: nat
  assume "url_match t = Some n"
  then have "0 < n \<and> t \<noteq> []"
    by (auto simp: url_match_def split: if_splits)
  then show "(drop n t, t) \<in> measure length" by simp
next
  fix t :: string and c :: char and cs :: string
  assume "t = c # cs"
  then show "(cs, t) \<in> measure length" by simp
qed

declare remove_urls.simps [simp del]

text \<open>\<open>text.split()\<close>: the maximal runs of characters that are not whitespace.\<close>

fun split_ws :: "string \<Rightarrow> string \<Rightarrow> string list" where
  "split_ws cur [] = (if cur = [] then [] else [cur])"
| "split_ws cur (c # cs) =
     (if is_space c
      then (if cur = [] then split_ws [] cs else cur # split_ws [] cs)
      else split_ws (cur @ [c]) cs)"

text \<open>\<open>' '.join(words)\<close>\<close>

fun join_space :: "string list \<Rightarrow> string" where
  "join_space [] = []"
| "join_space [w] = w"
| "join_space (w # ws) = w @ '' '' @ join_space ws"

definition preprocess_text :: "string \<Rightarrow> string" where
  "preprocess_text text = join_space (split_ws [] (remove_urls (lower text)))"

subsection \<open>\<open>analyze_sentiment\<close> and \<open>get_sentiment_label\<close>\<close>

text \<open>
  The scorer \<open>self.sia.polarity_scores\<close> belongs to an external library. It is a
  parameter of the model: given the cleaned text it either raises or returns a
  dictionary of scores.
\<close>

type_synonym scorer = "string \<Rightarrow> error + (string \<rightharpoonup> real)"

text \<open>The body of the \<open>try\<close> block of \<open>analyze_sentiment\<close>.\<close>

definition compound_score :: "scorer \<Rightarrow> pyval \<Rightarrow> error + real" where
  "compound_score sia text =
     (case text of
        PyStr s \<Rightarrow>
          (case sia (preprocess_text s) of
             Inl e \<Rightarrow> Inl e
           | Inr scores \<Rightarrow>
               (case scores ''compound'' of
                  None \<Rightarrow> Inl (KeyError ''compound'')
                | Some c \<Rightarrow> Inr c))
      | _ \<Rightarrow> Inl AttributeError)"

text \<open>
  The guard \<open>not text or not isinstance(text, str)\<close> stands before the \<open>try\<close>: when the
  truth test of \<open>text\<close> raises, the exception leaves the function.
\<close>

definition analyze_sentiment :: "scorer \<Rightarrow> pyval \<Rightarrow> error + real" where
  "analyze_sentiment sia text =
     (case truthy text of
        Inl e \<Rightarrow> Inl e
      | Inr b \<Rightarrow>
          (if \<not> b \<or> \<not> isinstance_str text then Inr 0
           else (case compound_score sia text of
                   Inl e \<Rightarrow> Inr 0
                 | Inr c \<Rightarrow> Inr c)))"

text \<open>Two scorers: one that always raises, one that always scores one half.\<close>

definition failing_scorer :: scorer where
  "failing_scorer = (\<lambda>t. Inl LookupError)"

definition half_scorer :: scorer where
  "half_scorer = (\<lambda>t. Inr [''compound'' \<mapsto> 1 / 2])"

definition get_sentiment_label :: "real \<Rightarrow> string" where
  "get_sentiment_label score =
     (if score \<ge> 0.05 then ''Positive''
      else if score \<le> - 0.05 then ''Negative''
      else ''Neutral'')"

section \<open>The scraper (data\_scrape.py)\<close>

subsection \<open>Sessions, element handles and the page\<close>

text \<open>
  A \<open>WebElement\<close> belongs to the browser session that located it. A handle records
  that session and the element's position: the \<open>i\<close>-th result of a search on the page
  has path \<open>[i]\<close>, its \<open>j\<close>-th matching descendant has path \<open>[i, j]\<close>.
\<close>

datatype handle = Handle (owner: nat) (path: "nat list")

text \<open>
  What the browser and the site answer is not part of the repository: it is the record
  \<open>world\<close>, one field for every call of the automation library that the scraper makes.
  A call that raises answers with the exception. Nothing is fixed about the answers, so
  a property proved for every \<open>world\<close> holds whatever the library does, also for an
  element whose session has been quit. Sessions are numbered in the order in
  which \<open>get_driver\<close> starts them; product pages are numbered in the order in which the
  scraper visits them.
\<close>

record world =
  launch :: "nat \<Rightarrow> error option"
    \<comment> \<open>\<open>webdriver.Chrome(...)\<close>, for the \<open>n\<close>-th browser started\<close>
  site_get :: "nat \<Rightarrow> string \<Rightarrow> error option"
    \<comment> \<open>\<open>driver.get(url)\<close> and \<open>driver.title\<close>\<close>
  click_wait :: "nat \<Rightarrow> string \<Rightarrow> error option"
    \<comment> \<open>\<open>wait.until(element_to_be_clickable(sel))\<close> and \<open>element.click()\<close>\<close>
  search_box_wait :: "nat \<Rightarrow> error option"
    \<comment> \<open>\<open>wait.until(presence_of_element_located(search bar))\<close>\<close>
  search_submit :: "nat \<Rightarrow> string \<Rightarrow> error option"
    \<comment> \<open>\<open>search_box.clear()\<close> and the two \<open>send_keys\<close>\<close>
  results_wait :: "nat \<Rightarrow> string \<Rightarrow> error option"
    \<comment> \<open>\<open>wait.until(presence_of_all_elements_located(item_selector))\<close>\<close>
  find_elements :: "nat \<Rightarrow> string \<Rightarrow> error + nat"
    \<comment> \<open>\<open>driver.find_elements\<close>: how many elements match\<close>
  elem_text :: "handle \<Rightarrow> string \<Rightarrow> error + string"
    \<comment> \<open>\<open>handle.find_element(sel).text\<close>\<close>
  elem_attr :: "handle \<Rightarrow> string \<Rightarrow> string \<Rightarrow> error + string option"
    \<comment> \<open>\<open>handle.find_element(sel).get_attribute(name)\<close>: \<open>None\<close> when the attribute is absent\<close>
  detail_get :: "nat \<Rightarrow> nat \<Rightarrow> string option \<Rightarrow> error option"
    \<comment> \<open>\<open>driver.get(product["link"])\<close> for the \<open>i\<close>-th product\<close>
  reviews_button :: "nat \<Rightarrow> nat \<Rightarrow> error option"
    \<comment> \<open>waiting for the button See All Customer Reviews of the \<open>i\<close>-th product and clicking it\<close>
  reviews_header :: "nat \<Rightarrow> nat \<Rightarrow> error option"
    \<comment> \<open>waiting for the heading of the review page of the \<open>i\<close>-th product\<close>
  elem_children :: "handle \<Rightarrow> string \<Rightarrow> error + nat"
    \<comment> \<open>\<open>handle.find_elements(sel)\<close>: how many descendants match\<close>
  file_open :: "error option"
    \<comment> \<open>\<open>open("data/products_raw.json", "w")\<close>: raises when the file cannot be created,
        as when the directory \<open>data\<close> is missing\<close>

subsection \<open>Records\<close>

text \<open>
  A product is the dictionary built by \<open>scrape_products\<close>: the keys \<open>title\<close>, \<open>price\<close>
  and \<open>link\<close> are always there, \<open>rating\<close> and \<open>review_count\<close> only once they have
  been assigned (\<open>None\<close> here means that the key is absent). The value of \<open>link\<close> is what
  \<open>get_attribute\<close> returned: a string or Python's \<open>None\<close>.
\<close>

record product =
  title :: string
  price :: string
  link :: "string option"
  rating :: "string option"
  review_count :: "string option"

text \<open>A review is the dictionary literal appended to \<open>reviews_data\<close>, in key order.\<close>

type_synonym review = "(string \<times> string) list"

datatype json =
    JNull
  | JString string
  | JArray "json list"
  | JObject "(string \<times> json) list"

text \<open>What \<open>json.dump(products, f, indent=2, ensure_ascii=False)\<close> writes, as a JSON value.\<close>

definition product_json :: "product \<Rightarrow> json" where
  "product_json p =
     JObject
       ([(''title'', JString (title p)),
         (''price'', JString (price p)),
         (''link'', (case link p of None \<Rightarrow> JNull | Some l \<Rightarrow> JString l))]
        @ (case rating p of None \<Rightarrow> [] | Some r \<Rightarrow> [(''rating'', JString r)])
        @ (case review_count p of None \<Rightarrow> [] | Some c \<Rightarrow> [(''review_count'', JString c)]))"

definition products_json :: "product list \<Rightarrow> json" where
  "products_json ps = JArray (map product_json ps)"

subsection \<open>The state of a run\<close>

text \<open>The lines printed by the scraper.\<close>

datatype report =
    PageLoaded
  | Clicked string
  | CouldNotClick string error
  | SearchBarFound
  | Searching string
  | FoundItems nat
  | ScrapingFailed error
  | SkippedProduct error
  | FoundProducts nat
  | Visiting string
  | ClickedReviewsButton
  | ExtractedReviews nat
  | NoReviewSection
  | FailedReviews string error
  | FinalList
  | ProductLine product
  | Saved nat

datatype event =
    Launched nat
  | Released nat
  | DriverOp nat
  | ElementOp handle
  | Printed report

text \<open>
  The state threaded through a run: how many browsers have been started, the sessions
  that are open, everything done so far in order, and the contents of
  \<open>data/products_raw.json\<close> (\<open>None\<close> as long as the run has not written it).
\<close>

record state =
  started :: nat
  live :: "nat list"
  trace :: "event list"
  saved :: "json option"

definition init_state :: state where
  "init_state = \<lparr>started = 0, live = [], trace = [], saved = None\<rparr>"

definition emit :: "event \<Rightarrow> state \<Rightarrow> state" where
  "emit e st = st\<lparr>trace := trace st @ [e]\<rparr>"

definition get_driver :: "world \<Rightarrow> state \<Rightarrow> (error + nat) \<times> state" where
  "get_driver w st =
     (let n = started st; st1 = st\<lparr>started := Suc n\<rparr>
      in case launch w n of
           Some e \<Rightarrow> (Inl e, st1)
         | None \<Rightarrow> (Inr n, emit (Launched n) (st1\<lparr>live := n # live st1\<rparr>)))"

text \<open>\<open>driver.quit()\<close>\<close>

definition driver_quit :: "nat \<Rightarrow> state \<Rightarrow> state" where
  "driver_quit d st = emit (Released d) (st\<lparr>live := removeAll d (live st)\<rparr>)"

subsection \<open>\<open>scrape_site\<close>\<close>

text \<open>The loop over \<open>click_selectors\<close>: each click is tried, a failure is only printed.\<close>

fun click_optional :: "world \<Rightarrow> nat \<Rightarrow> string list \<Rightarrow> state \<Rightarrow> state" where
  "click_optional w d [] st = st"
| "click_optional w d (sel # sels) st =
     (let st1 = emit (DriverOp d) st
      in case click_wait w d sel of
           Some e \<Rightarrow> click_optional w d sels (emit (Printed (CouldNotClick sel e)) st1)
         | None \<Rightarrow> click_optional w d sels (emit (Printed (Clicked sel)) st1))"

text \<open>The \<open>try\<close> block of \<open>scrape_site\<close>, run on the session \<open>d\<close>.\<close>

definition search_listing ::
  "world \<Rightarrow> nat \<Rightarrow> string \<Rightarrow> string \<Rightarrow> string list \<Rightarrow> string \<Rightarrow> state
     \<Rightarrow> (error + handle list) \<times> state" where
  "search_listing w d url search_term click_selectors item_selector st =
     (let st1 = emit (DriverOp d) st
      in case site_get w d url of
           Some e \<Rightarrow> (Inl e, st1)
         | None \<Rightarrow>
             (let st2 = click_optional w d click_selectors (emit (Printed PageLoaded) st1);
                  st3 = emit (DriverOp d) st2
              in case search_box_wait w d of
                   Some e \<Rightarrow> (Inl e, st3)
                 | None \<Rightarrow>
                     (let st4 = emit (DriverOp d) (emit (Printed SearchBarFound) st3)
                      in case search_submit w d search_term of
                           Some e \<Rightarrow> (Inl e, st4)
                         | None \<Rightarrow>
                             (let st5 = emit (DriverOp d)
                                          (emit (Printed (Searching search_term)) st4)
                              in case results_wait w d item_selector of
                                   Some e \<Rightarrow> (Inl e, st5)
                                 | None \<Rightarrow>
                                     (let st6 = emit (DriverOp d) st5
                                      in case find_elements w d item_selector of
                                           Inl e \<Rightarrow> (Inl e, st6)
                                         | Inr n \<Rightarrow>
                                             (let items = map (\<lambda>i. Handle d [i]) [0..<n]
                                              in (Inr items,
                                                  emit (Printed (FoundItems (length items)))
                                                    st6)))))))"

text \<open>
  \<open>scrape_site\<close> starts a browser of its own. An exception inside the \<open>try\<close> block is
  printed and the empty list is returned; \<open>finally\<close> quits the browser on every path.
\<close>

definition scrape_site ::
  "world \<Rightarrow> string \<Rightarrow> string \<Rightarrow> string list \<Rightarrow> string \<Rightarrow> state
     \<Rightarrow> (error + handle list) \<times> state" where
  "scrape_site w url search_term click_selectors item_selector st =
     (case get_driver w st of
        (Inl e, st1) \<Rightarrow> (Inl e, st1)
      | (Inr d, st1) \<Rightarrow>
          (case search_listing w d url search_term click_selectors item_selector st1 of
             (Inl e, st2) \<Rightarrow> (Inr [], driver_quit d (emit (Printed (ScrapingFailed e)) st2))
           | (Inr items, st2) \<Rightarrow> (Inr items, driver_quit d st2)))"

subsection \<open>\<open>scrape_products\<close>: the listing loop\<close>

text \<open>The \<open>try\<close> block of the first loop, up to the dictionary that is appended.\<close>

definition parse_item :: "world \<Rightarrow> handle \<Rightarrow> state \<Rightarrow> (error + product) \<times> state" where
  "parse_item w item st =
     (let st1 = emit (ElementOp item) st
      in case elem_text w item ''h2.product-title'' of
           Inl e \<Rightarrow> (Inl e, st1)
         | Inr t \<Rightarrow>
             (let st2 = emit (ElementOp item) st1
              in case elem_text w item
                        ''div[data-testid='price-block-customer-price'] span'' of
                   Inl e \<Rightarrow> (Inl e, st2)
                 | Inr pr \<Rightarrow>
                     (let st3 = emit (ElementOp item) st2
                      in case elem_attr w item ''a.product-list-item-link'' ''href'' of
                           Inl e \<Rightarrow> (Inl e, st3)
                         | Inr l \<Rightarrow>
                             (Inr \<lparr>title = t, price = pr, link = l,
                                   rating = None, review_count = None\<rparr>, st3))))"

text \<open>\<open>for item in items\<close>: the products appended, in order.\<close>

fun parse_items :: "world \<Rightarrow> handle list \<Rightarrow> state \<Rightarrow> product list \<times> state" where
  "parse_items w [] st = ([], st)"
| "parse_items w (item # items) st =
     (case parse_item w item st of
        (Inl e, st1) \<Rightarrow> parse_items w items (emit (Printed (SkippedProduct e)) st1)
      | (Inr p, st1) \<Rightarrow>
          (case parse_items w items st1 of (ps, st2) \<Rightarrow> (p # ps, st2)))"

subsection \<open>\<open>scrape_products\<close>: the review loop\<close>

text \<open>One pass of \<open>for review in review_items\<close>: four lookups, each with its own
  \<open>try\<close> and the fallback \<open>"N/A"\<close>.\<close>

definition extract_review :: "world \<Rightarrow> handle \<Rightarrow> review" where
  "extract_review w rv =
     (let r_rating = (case elem_text w rv ''span.sr-only'' of
                        Inl e \<Rightarrow> ''N/A'' | Inr t \<Rightarrow> t);
          r_title = (case elem_text w rv ''h4.body-copy-lg'' of
                       Inl e \<Rightarrow> ''N/A'' | Inr t \<Rightarrow> t);
          r_content = (case elem_text w rv ''p.body-copy-lg'' of
                         Inl e \<Rightarrow> ''N/A'' | Inr t \<Rightarrow> t);
          r_posted_by = (case elem_text w rv ''p[data-testid='posted-by']'' of
                           Inl e \<Rightarrow> ''N/A'' | Inr t \<Rightarrow> t)
      in [(''rating'', r_rating), (''title'', r_title),
          (''content'', r_content), (''posted_by'', r_posted_by)])"

fun extract_reviews :: "world \<Rightarrow> handle list \<Rightarrow> state \<Rightarrow> review list \<times> state" where
  "extract_reviews w [] st = ([], st)"
| "extract_reviews w (rv # rvs) st =
     (let st1 = emit (ElementOp rv) (emit (ElementOp rv)
                  (emit (ElementOp rv) (emit (ElementOp rv) st)))
      in case extract_reviews w rvs st1 of
           (rs, st2) \<Rightarrow> (extract_review w rv # rs, st2))"

text \<open>
  The name \<open>reviews_container\<close> is read in \<open>scrape_products\<close> and assigned nowhere, in
  the function or in the module: reading it raises \<open>NameError\<close>.
\<close>

definition reviews_container :: "error + handle" where
  "reviews_container = Inl (NameError ''reviews_container'')"

text \<open>The inner \<open>try\<close> block of the second loop, for the \<open>i\<close>-th product.\<close>

definition open_reviews :: "world \<Rightarrow> nat \<Rightarrow> nat \<Rightarrow> state \<Rightarrow> (error + review list) \<times> state" where
  "open_reviews w d i st =
     (let st1 = emit (DriverOp d) st
      in case reviews_button w d i of
           Some e \<Rightarrow> (Inl e, st1)
         | None \<Rightarrow>
             (let st2 = emit (DriverOp d) (emit (Printed ClickedReviewsButton) st1)
              in case reviews_header w d i of
                   Some e \<Rightarrow> (Inl e, st2)
                 | None \<Rightarrow>
                     (case reviews_container of
                        Inl e \<Rightarrow> (Inl e, st2)
                      | Inr c \<Rightarrow>
                          (let st3 = emit (ElementOp c) st2
                           in case elem_children w c
                                     ''li.w-full.py-300.py-sm-200.border-light'' of
                                Inl e \<Rightarrow> (Inl e, st3)
                              | Inr n \<Rightarrow>
                                  (let review_items =
                                         map (\<lambda>j. Handle (owner c) (path c @ [j])) [0..<n]
                                   in case extract_reviews w review_items st3 of
                                        (reviews_data, st4) \<Rightarrow>
                                          (Inr reviews_data,
                                           emit (Printed (ExtractedReviews
                                                            (length reviews_data))) st4))))))"

text \<open>
  The body of \<open>for product in products\<close> for the \<open>i\<close>-th product. A failure of
  \<open>driver.get\<close> reaches the outer handler, which prints it. A failure inside the inner
  \<open>try\<close> reaches the inner handler, which sets \<open>rating\<close> and \<open>review_count\<close>. When the
  inner block ends normally, \<open>reviews_data\<close> is not stored anywhere.
\<close>

definition visit_product :: "world \<Rightarrow> nat \<Rightarrow> nat \<Rightarrow> product \<Rightarrow> state \<Rightarrow> product \<times> state" where
  "visit_product w d i p st =
     (let st1 = emit (DriverOp d) (emit (Printed (Visiting (title p))) st)
      in case detail_get w d i (link p) of
           Some e \<Rightarrow> (p, emit (Printed (FailedReviews (title p) e)) st1)
         | None \<Rightarrow>
             (case open_reviews w d i st1 of
                (Inl e, st2) \<Rightarrow>
                  (p\<lparr>rating := Some ''N/A'', review_count := Some ''N/A''\<rparr>,
                   emit (Printed NoReviewSection) st2)
              | (Inr reviews_data, st2) \<Rightarrow> (p, st2)))"

fun visit_products ::
  "world \<Rightarrow> nat \<Rightarrow> nat \<Rightarrow> product list \<Rightarrow> state \<Rightarrow> product list \<times> state" where
  "visit_products w d i [] st = ([], st)"
| "visit_products w d i (p # ps) st =
     (case visit_product w d i p st of
        (p', st1) \<Rightarrow>
          (case visit_products w d (Suc i) ps st1 of
             (ps', st2) \<Rightarrow> (p' # ps', st2)))"

subsection \<open>\<open>scrape_products\<close>: the whole run\<close>

text \<open>\<open>for p in products: print(p)\<close>\<close>

definition print_products :: "product list \<Rightarrow> state \<Rightarrow> state" where
  "print_products ps st = st\<lparr>trace := trace st @ map (\<lambda>p. Printed (ProductLine p)) ps\<rparr>"

text \<open>
  The \<open>try\<close> block of \<open>scrape_products\<close> after the call of \<open>scrape_site\<close>. Its last
  step opens the output file: nothing there catches an exception of \<open>open\<close>, which
  leaves the function before anything is written. Once the file is open, dumping the
  products, which hold only strings and \<open>None\<close>, is taken to succeed.
\<close>

definition collect_products ::
  "world \<Rightarrow> nat \<Rightarrow> handle list \<Rightarrow> state \<Rightarrow> (error + product list) \<times> state" where
  "collect_products w d items st =
     (case parse_items w items st of
        (products, st1) \<Rightarrow>
          (case visit_products w d 0 products
                  (emit (Printed (FoundProducts (length products))) st1) of
             (products', st2) \<Rightarrow>
               (let st3 = print_products products' (emit (Printed FinalList) st2)
                in case file_open w of
                     Some e \<Rightarrow> (Inl e, st3)
                   | None \<Rightarrow>
                       (let st4 = st3\<lparr>saved := Some (products_json products')\<rparr>
                        in (Inr products',
                            emit (Printed (Saved (length products'))) st4)))))"

text \<open>
  \<open>scrape_products\<close> starts its own browser before the \<open>try\<close>; \<open>finally\<close> quits it on
  every path, also when \<open>scrape_site\<close> or the opening of the file raises.
\<close>

definition scrape_products :: "world \<Rightarrow> state \<Rightarrow> (error + product list) \<times> state" where
  "scrape_products w st =
     (case get_driver w st of
        (Inl e, st1) \<Rightarrow> (Inl e, st1)
      | (Inr d, st1) \<Rightarrow>
          (case scrape_site w ''https://www.bestbuy.com/'' ''laptop'' [''a.us-link'']
                  ''li.product-list-item'' st1 of
             (Inl e, st2) \<Rightarrow> (Inl e, driver_quit d st2)
           | (Inr items, st2) \<Rightarrow>
               (case collect_products w d items st2 of
                  (r, st3) \<Rightarrow> (r, driver_quit d st3))))"

subsection \<open>The limits of config.py\<close>

definition MAX_PRODUCTS :: nat where
  "MAX_PRODUCTS = 50"

definition MAX_PRODUCTS_DETAIL :: nat where
  "MAX_PRODUCTS_DETAIL = 20"

definition MAX_REVIEWS_PER_PRODUCT :: nat where
  "MAX_REVIEWS_PER_PRODUCT = 50"

subsection \<open>The items handed to the listing loop\<close>

text \<open>
  \<open>found_items w d\<close>: the list that \<open>scrape_site\<close> returns to \<open>scrape_products\<close> when
  its browser is the session \<open>d\<close>: the handles found by the search, or the empty list
  when the search failed.
\<close>

definition found_items :: "world \<Rightarrow> nat \<Rightarrow> handle list" where
  "found_items w d =
     (case fst (search_listing w d ''https://www.bestbuy.com/'' ''laptop'' [''a.us-link'']
                  ''li.product-list-item'' init_state) of
        Inl e \<Rightarrow> []
      | Inr items \<Rightarrow> items)"

subsection \<open>Reading a trace\<close>

text \<open>
  \<open>stale_use rel es\<close>: some operation in \<open>es\<close> is made on a session, or on an element of
  a session, that has been released before (\<open>rel\<close> holds the sessions released so far).
\<close>

fun stale_use :: "nat list \<Rightarrow> event list \<Rightarrow> bool" where
  "stale_use rel [] = False"
| "stale_use rel (Released d # es) = stale_use (d # rel) es"
| "stale_use rel (DriverOp d # es) = (d \<in> set rel \<or> stale_use rel es)"
| "stale_use rel (ElementOp h # es) = (owner h \<in> set rel \<or> stale_use rel es)"
| "stale_use rel (e # es) = stale_use rel es"

text \<open>The lines printed during a run, in order.\<close>

definition printed :: "event list \<Rightarrow> report list" where
  "printed es = concat (map (\<lambda>e. case e of Printed r \<Rightarrow> [r] | _ \<Rightarrow> []) es)"

subsection \<open>Sample pages\<close>

text \<open>
  A site on which everything succeeds: the search lists \<open>n\<close> items, every item has its
  three fields, every product page loads and shows the reviews button, and the output
  file can be opened.
\<close>

definition sample_world :: "nat \<Rightarrow> world" where
  "sample_world n =
     \<lparr>launch = (\<lambda>k. None),
      site_get = (\<lambda>d url. None),
      click_wait = (\<lambda>d sel. None),
      search_box_wait = (\<lambda>d. None),
      search_submit = (\<lambda>d t. None),
      results_wait = (\<lambda>d sel. None),
      find_elements = (\<lambda>d sel. Inr n),
      elem_text = (\<lambda>h sel. Inr ''text''),
      elem_attr = (\<lambda>h sel a. Inr (Some ''https://www.bestbuy.com/p'')),
      detail_get = (\<lambda>d i l. None),
      reviews_button = (\<lambda>d i. None),
      reviews_header = (\<lambda>d i. None),
      elem_children = (\<lambda>h sel. Inr 0),
      file_open = None\<rparr>"

text \<open>The same site, where no review names its author.\<close>

definition no_author_world :: world where
  "no_author_world =
     (sample_world 1)
       \<lparr>elem_text := (\<lambda>h sel. if sel = ''p[data-testid='posted-by']''
                                then Inl NoSuchElementException else Inr ''text'')\<rparr>"

text \<open>One item, whose title element is missing.\<close>

definition untitled_world :: world where
  "untitled_world =
     (sample_world 1)
       \<lparr>elem_text := (\<lambda>h sel. if sel = ''h2.product-title''
                                then Inl NoSuchElementException else Inr ''text'')\<rparr>"

text \<open>Three items; the page of the second product does not load.\<close>

definition broken_world :: world where
  "broken_world =
     (sample_world 3)
       \<lparr>detail_get := (\<lambda>d i l. if i = 1 then Some WebDriverException else None)\<rparr>"

text \<open>Three items; no product page shows the reviews button.\<close>

definition no_reviews_world :: world where
  "no_reviews_world =
     (sample_world 3)\<lparr>reviews_button := (\<lambda>d i. Some TimeoutException)\<rparr>"

text \<open>A site whose search box never appears.\<close>

definition no_search_box_world :: world where
  "no_search_box_world =
     (sample_world 2)\<lparr>search_box_wait := (\<lambda>d. Some TimeoutException)\<rparr>"

text \<open>
  A site on which every lookup on an item of the results raises, as it does once the
  session that found the items has been quit.
\<close>

definition dead_handles_world :: "nat \<Rightarrow> world" where
  "dead_handles_world n =
     (sample_world n)
       \<lparr>elem_text := (\<lambda>h sel. Inl WebDriverException),
        elem_attr := (\<lambda>h sel a. Inl WebDriverException)\<rparr>"

text \<open>The same site, where moreover the output file cannot be opened.\<close>

definition no_data_dir_world :: world where
  "no_data_dir_world = no_search_box_world\<lparr>file_open := Some FileNotFoundError\<rparr>"

subsection \<open>Framing\<close>

text \<open>
  \<open>frame st st'\<close>: between \<open>st\<close> and \<open>st'\<close> no browser was started or quit, the output
  file was not written, and the trace has only grown.
\<close>

definition frame :: "state \<Rightarrow> state \<Rightarrow> bool" where
  "frame st st' \<longleftrightarrow>
     started st' = started st \<and> live st' = live st \<and> saved st' = saved st \<and>
     prefix (trace st) (trace st')"

section \<open>Properties of the stages\<close>

subsection \<open>Results\<close>

lemma emit_simps [simp]:
  "trace (emit e st) = trace st @ [e]"
  "live (emit e st) = live st"
  "started (emit e st) = started st"
  "saved (emit e st) = saved st"
  by (simp_all add: emit_def)

lemma parse_item_fst:
  "fst (parse_item w it st) =
     (case elem_text w it ''h2.product-title'' of
        Inl e \<Rightarrow> Inl e
      | Inr t \<Rightarrow>
          (case elem_text w it ''div[data-testid='price-block-customer-price'] span'' of
             Inl e \<Rightarrow> Inl e
           | Inr pr \<Rightarrow>
               (case elem_attr w it ''a.product-list-item-link'' ''href'' of
                  Inl e \<Rightarrow> Inl e
                | Inr l \<Rightarrow> Inr \<lparr>title = t, price = pr, link = l,
                                 rating = None, review_count = None\<rparr>)))"
  by (simp add: parse_item_def Let_def split: sum.splits)

lemma parse_item_indep: "fst (parse_item w it st) = fst (parse_item w it st')"
  by (simp add: parse_item_fst)

lemma parse_items_fst:
  "fst (parse_items w items st) =
     concat (map (\<lambda>it. case fst (parse_item w it st0) of Inl e \<Rightarrow> [] | Inr p \<Rightarrow> [p]) items)"
proof (induction items arbitrary: st)
  case Nil
  show ?case by simp
next
  case (Cons it items)
  obtain r st1 where r: "parse_item w it st = (r, st1)" by (cases "parse_item w it st")
  have r0: "fst (parse_item w it st0) = r" using r parse_item_indep[of w it st0 st] by simp
  show ?case
  proof (cases r)
    case (Inl e)
    then show ?thesis using r r0 Cons.IH by simp
  next
    case (Inr p)
    then show ?thesis using r r0 Cons.IH[of st1] by (auto split: prod.splits)
  qed
qed

lemma open_reviews_fst: "\<exists>e. fst (open_reviews w d i st) = Inl e"
  by (simp add: open_reviews_def reviews_container_def Let_def split: option.splits)

lemma visit_product_fst:
  "fst (visit_product w d i p st) =
     (case detail_get w d i (link p) of
        Some e \<Rightarrow> p
      | None \<Rightarrow> p\<lparr>rating := Some ''N/A'', review_count := Some ''N/A''\<rparr>)"
proof (cases "detail_get w d i (link p)")
  case None
  obtain e where e: "fst (open_reviews w d i (emit (DriverOp d) (emit (Printed (Visiting (title p))) st))) = Inl e"
    using open_reviews_fst by blast
  then show ?thesis using None
    by (auto simp: visit_product_def Let_def split: prod.splits sum.splits)
next
  case (Some e)
  then show ?thesis by (simp add: visit_product_def Let_def)
qed

lemma visit_products_fst:
  "fst (visit_products w d i ps st) =
     map (\<lambda>(j, p). fst (visit_product w d j p st0)) (zip [i..<i + length ps] ps)"
proof (induction ps arbitrary: i st)
  case Nil
  show ?case by simp
next
  case (Cons p ps)
  obtain p' st1 where a: "visit_product w d i p st = (p', st1)"
    by (cases "visit_product w d i p st")
  obtain ps' st2 where b: "visit_products w d (Suc i) ps st1 = (ps', st2)"
    by (cases "visit_products w d (Suc i) ps st1")
  have p': "p' = fst (visit_product w d i p st0)"
    using a visit_product_fst[of w d i p st] visit_product_fst[of w d i p st0] by simp
  have ps': "ps' = map (\<lambda>(j, p). fst (visit_product w d j p st0))
                      (zip [Suc i..<Suc i + length ps] ps)"
    using b Cons.IH[of "Suc i" st1] by simp
  have u: "[i..<i + length (p # ps)] = i # [Suc i..<Suc i + length ps]"
    by (subst upt_rec) simp
  show ?case unfolding u using a b p' ps' by simp
qed

lemma visit_products_length: "length (fst (visit_products w d i ps st)) = length ps"
  by (simp add: visit_products_fst[where ?st0.0 = st])


subsection \<open>Effects on the state\<close>

lemma frame_refl [simp]: "frame st st"
  by (simp add: frame_def)

lemma frame_trans: "frame st st1 \<Longrightarrow> frame st1 st2 \<Longrightarrow> frame st st2"
  by (auto simp: frame_def intro: prefix_order.trans)

lemma frame_emit: "frame st st1 \<Longrightarrow> frame st (emit e st1)"
  by (auto simp: frame_def prefix_def)

lemma frame_click_optional: "frame st (click_optional w d sels st)"
proof (induction sels arbitrary: st)
  case Nil
  show ?case by simp
next
  case (Cons sel sels)
  show ?case
  proof (cases "click_wait w d sel")
    case None
    have "frame st (emit (Printed (Clicked sel)) (emit (DriverOp d) st))"
      by (simp add: frame_emit)
    then show ?thesis using None Cons.IH frame_trans by (auto simp: Let_def)
  next
    case (Some e)
    have "frame st (emit (Printed (CouldNotClick sel e)) (emit (DriverOp d) st))"
      by (simp add: frame_emit)
    then show ?thesis using Some Cons.IH frame_trans by (auto simp: Let_def)
  qed
qed

lemma frame_search_listing: "frame st (snd (search_listing w d url t sels isel st))"
proof -
  have c: "frame st (click_optional w d sels (emit (Printed PageLoaded) (emit (DriverOp d) st)))"
    using frame_trans[OF _ frame_click_optional] frame_emit[OF frame_emit[OF frame_refl]]
    by blast
  show ?thesis
    by (auto simp: search_listing_def Let_def c frame_emit split: option.splits sum.splits)
qed

lemma frame_parse_item: "frame st (snd (parse_item w it st))"
  by (auto simp: parse_item_def Let_def frame_emit split: sum.splits)

lemma frame_parse_items: "frame st (snd (parse_items w items st))"
proof (induction items arbitrary: st)
  case Nil
  show ?case by simp
next
  case (Cons it items)
  obtain r st1 where r: "parse_item w it st = (r, st1)" by (cases "parse_item w it st")
  have f1: "frame st st1" using frame_parse_item[of st w it] r by simp
  show ?case
  proof (cases r)
    case (Inl e)
    have "frame st (emit (Printed (SkippedProduct e)) st1)" using f1 by (rule frame_emit)
    then show ?thesis using r Inl Cons.IH frame_trans by auto
  next
    case (Inr p)
    have "frame st (snd (parse_items w items st1))" using f1 Cons.IH frame_trans by blast
    then show ?thesis using r Inr by (auto split: prod.splits)
  qed
qed

lemma frame_extract_reviews: "frame st (snd (extract_reviews w rvs st))"
proof (induction rvs arbitrary: st)
  case Nil
  show ?case by simp
next
  case (Cons rv rvs)
  let ?st1 = "emit (ElementOp rv) (emit (ElementOp rv) (emit (ElementOp rv) (emit (ElementOp rv) st)))"
  have "frame st ?st1" by (simp add: frame_emit)
  then have "frame st (snd (extract_reviews w rvs ?st1))"
    using Cons.IH frame_trans by blast
  then show ?case by (auto simp: Let_def split: prod.splits)
qed

lemma frame_open_reviews: "frame st (snd (open_reviews w d i st))"
  by (auto simp: open_reviews_def reviews_container_def Let_def frame_emit
           split: option.splits)

lemma frame_visit_product: "frame st (snd (visit_product w d i p st))"
proof -
  let ?st1 = "emit (DriverOp d) (emit (Printed (Visiting (title p))) st)"
  have a: "frame st ?st1" by (simp add: frame_emit)
  have b: "frame st (snd (open_reviews w d i ?st1))"
    using a frame_open_reviews frame_trans by blast
  show ?thesis
  proof (cases "detail_get w d i (link p)")
    case None
    obtain r st2 where r: "open_reviews w d i ?st1 = (r, st2)"
      by (cases "open_reviews w d i ?st1")
    then have "frame st st2" using b by simp
    then show ?thesis using None r
      by (cases r) (simp_all add: visit_product_def Let_def frame_emit)
  next
    case (Some e)
    then show ?thesis using a by (simp add: visit_product_def Let_def frame_emit)
  qed
qed

lemma frame_visit_products: "frame st (snd (visit_products w d i ps st))"
proof (induction ps arbitrary: i st)
  case Nil
  show ?case by simp
next
  case (Cons p ps)
  obtain p' st1 where a: "visit_product w d i p st = (p', st1)"
    by (cases "visit_product w d i p st")
  have "frame st st1" using frame_visit_product[of st w d i p] a by simp
  then have "frame st (snd (visit_products w d (Suc i) ps st1))"
    using Cons.IH frame_trans by blast
  then show ?case using a by (auto split: prod.splits)
qed

lemma frame_print_products: "frame st st1 \<Longrightarrow> frame st (print_products ps st1)"
  by (auto simp: frame_def print_products_def prefix_def)

subsection \<open>The whole run\<close>

lemma search_listing_fst:
  "fst (search_listing w d url t sels isel st) =
     (case site_get w d url of
        Some e \<Rightarrow> Inl e
      | None \<Rightarrow>
          (case search_box_wait w d of
             Some e \<Rightarrow> Inl e
           | None \<Rightarrow>
               (case search_submit w d t of
                  Some e \<Rightarrow> Inl e
                | None \<Rightarrow>
                    (case results_wait w d isel of
                       Some e \<Rightarrow> Inl e
                     | None \<Rightarrow>
                         (case find_elements w d isel of
                            Inl e \<Rightarrow> Inl e
                          | Inr n \<Rightarrow> Inr (map (\<lambda>i. Handle d [i]) [0..<n]))))))"
  by (simp add: search_listing_def Let_def split: option.splits sum.splits)

lemma search_listing_indep:
  "fst (search_listing w d url t sels isel st) = fst (search_listing w d url t sels isel st')"
  by (simp add: search_listing_fst)

lemma parse_items_indep: "fst (parse_items w items st) = fst (parse_items w items st')"
  using parse_items_fst[of w items st st'] parse_items_fst[of w items st' st'] by simp

lemma visit_products_indep:
  "fst (visit_products w d i ps st) = fst (visit_products w d i ps st')"
  using visit_products_fst[of w d i ps st st'] visit_products_fst[of w d i ps st' st'] by simp

lemma get_driver_ok:
  "launch w (started st) = None \<Longrightarrow>
   get_driver w st =
     (Inr (started st),
      emit (Launched (started st))
        (st\<lparr>started := Suc (started st), live := started st # live st\<rparr>))"
  by (simp add: get_driver_def Let_def)

lemma get_driver_fail:
  "launch w (started st) = Some e \<Longrightarrow>
   get_driver w st = (Inl e, st\<lparr>started := Suc (started st)\<rparr>)"
  by (simp add: get_driver_def Let_def)

lemma collect_products_fst:
  "fst (collect_products w d items st) =
     (case file_open w of
        None \<Rightarrow> Inr (fst (visit_products w d 0 (fst (parse_items w items st0)) st0))
      | Some e \<Rightarrow> Inl e)"
proof -
  obtain ps st1 where a: "parse_items w items st = (ps, st1)"
    by (cases "parse_items w items st")
  obtain ps' st2 where b:
    "visit_products w d 0 ps (emit (Printed (FoundProducts (length ps))) st1) = (ps', st2)"
    by (cases "visit_products w d 0 ps (emit (Printed (FoundProducts (length ps))) st1)")
  have "ps = fst (parse_items w items st0)" using a parse_items_indep[of w items st st0] by simp
  moreover have "ps' = fst (visit_products w d 0 ps st0)"
    using b visit_products_indep[of w d 0 ps _ st0] by (metis fst_conv)
  ultimately show ?thesis using a b
    by (simp add: collect_products_def Let_def split: option.splits)
qed

lemma collect_products_saved:
  "fst (collect_products w d items st) = Inr ps \<Longrightarrow>
   saved (snd (collect_products w d items st)) = Some (products_json ps)"
  by (auto simp: collect_products_def Let_def split: prod.splits option.splits)

text \<open>The run, once both browsers have started.\<close>

lemma scrape_site_ok:
  assumes "launch w (started st) = None"
  shows "fst (scrape_site w ''https://www.bestbuy.com/'' ''laptop'' [''a.us-link'']
                ''li.product-list-item'' st) = Inr (found_items w (started st))"
proof -
  let ?st1 = "emit (Launched (started st))
                (st\<lparr>started := Suc (started st), live := started st # live st\<rparr>)"
  obtain r st2 where r: "search_listing w (started st) ''https://www.bestbuy.com/'' ''laptop''
                           [''a.us-link''] ''li.product-list-item'' ?st1 = (r, st2)"
    by (cases "search_listing w (started st) ''https://www.bestbuy.com/'' ''laptop''
                 [''a.us-link''] ''li.product-list-item'' ?st1")
  have "fst (search_listing w (started st) ''https://www.bestbuy.com/'' ''laptop''
               [''a.us-link''] ''li.product-list-item'' init_state) = r"
    using r search_listing_indep[of w "started st" _ _ _ _ init_state ?st1] by simp
  then show ?thesis
    using r by (cases r) (simp_all add: scrape_site_def get_driver_ok[OF assms] found_items_def)
qed

lemma scrape_site_started:
  "started (snd (scrape_site w url t sels isel st)) = Suc (started st)"
proof (cases "launch w (started st)")
  case None
  let ?st1 = "emit (Launched (started st))
                (st\<lparr>started := Suc (started st), live := started st # live st\<rparr>)"
  obtain r st2 where r: "search_listing w (started st) url t sels isel ?st1 = (r, st2)"
    by (cases "search_listing w (started st) url t sels isel ?st1")
  have "frame ?st1 st2" using frame_search_listing[of ?st1 w "started st" url t sels isel] r by simp
  then have "started st2 = Suc (started st)" by (simp add: frame_def)
  then show ?thesis using r
    by (cases r) (simp_all add: scrape_site_def get_driver_ok[OF None] driver_quit_def)
next
  case (Some e)
  then show ?thesis by (simp add: scrape_site_def get_driver_fail)
qed

lemma run_outcome:
  assumes "launch w (started st) = None" and "launch w (Suc (started st)) = None"
  shows "fst (scrape_products w st) =
           (case file_open w of
              None \<Rightarrow> Inr (fst (visit_products w (started st) 0
                              (fst (parse_items w (found_items w (Suc (started st))) st0)) st0))
            | Some e \<Rightarrow> Inl e)"
proof -
  let ?st1 = "emit (Launched (started st))
                (st\<lparr>started := Suc (started st), live := started st # live st\<rparr>)"
  have l: "launch w (started ?st1) = None" using assms(2) by simp
  obtain r st2 where r: "scrape_site w ''https://www.bestbuy.com/'' ''laptop'' [''a.us-link'']
                           ''li.product-list-item'' ?st1 = (r, st2)"
    by (cases "scrape_site w ''https://www.bestbuy.com/'' ''laptop'' [''a.us-link'']
                 ''li.product-list-item'' ?st1")
  have "r = Inr (found_items w (Suc (started st)))"
    using scrape_site_ok[OF l] r by simp
  then show ?thesis
    using r collect_products_fst[of w "started st" "found_items w (Suc (started st))" st2 st0]
    by (auto simp: scrape_products_def get_driver_ok[OF assms(1)] split: prod.splits)
qed

lemma run_fst:
  assumes "launch w (started st) = None" and "launch w (Suc (started st)) = None"
    and "file_open w = None"
  shows "fst (scrape_products w st) =
           Inr (fst (visit_products w (started st) 0
                  (fst (parse_items w (found_items w (Suc (started st))) st0)) st0))"
  using run_outcome[OF assms(1,2), of st0] assms(3) by simp

lemma run_write_fail:
  assumes "launch w (started st) = None" and "launch w (Suc (started st)) = None"
    and "file_open w = Some e"
  shows "fst (scrape_products w st) = Inl e"
  using run_outcome[OF assms(1,2)] assms(3) by simp

lemma run_saved:
  assumes "fst (scrape_products w st) = Inr ps"
  shows "saved (snd (scrape_products w st)) = Some (products_json ps)"
proof (cases "get_driver w st")
  case (Pair r st1)
  then obtain d where d: "r = Inr d" using assms by (cases r) (auto simp: scrape_products_def)
  obtain r2 st2 where s: "scrape_site w ''https://www.bestbuy.com/'' ''laptop'' [''a.us-link'']
                            ''li.product-list-item'' st1 = (r2, st2)"
    by (cases "scrape_site w ''https://www.bestbuy.com/'' ''laptop'' [''a.us-link'']
                 ''li.product-list-item'' st1")
  then obtain items where i: "r2 = Inr items"
    using assms Pair d by (cases r2) (auto simp: scrape_products_def)
  obtain r3 st3 where c: "collect_products w d items st2 = (r3, st3)"
    by (cases "collect_products w d items st2")
  have "r3 = Inr ps" using assms Pair d s i c by (simp add: scrape_products_def)
  then have "saved st3 = Some (products_json ps)"
    using collect_products_saved[of w d items st2 ps] c by simp
  then show ?thesis using Pair d s i c by (simp add: scrape_products_def driver_quit_def)
qed

lemma found_items_sample:
  "found_items (sample_world n) d = map (\<lambda>i. Handle d [i]) [0..<n]"
  by (simp add: found_items_def search_listing_fst sample_world_def)

lemma run_launch_fail1:
  "launch w (started st) = Some e \<Longrightarrow> fst (scrape_products w st) = Inl e"
  by (simp add: scrape_products_def get_driver_fail)

lemma run_launch_fail2:
  assumes "launch w (started st) = None" and "launch w (Suc (started st)) = Some e"
  shows "fst (scrape_products w st) = Inl e"
proof -
  let ?st1 = "emit (Launched (started st))
                (st\<lparr>started := Suc (started st), live := started st # live st\<rparr>)"
  have "launch w (started ?st1) = Some e" using assms(2) by simp
  then have "get_driver w ?st1 = (Inl e, ?st1\<lparr>started := Suc (started ?st1)\<rparr>)"
    by (rule get_driver_fail)
  then show ?thesis
    by (simp add: scrape_products_def get_driver_ok[OF assms(1)] scrape_site_def)
qed

lemma run_Inr_launched:
  assumes "fst (scrape_products w st) = Inr ps"
  shows "launch w (started st) = None \<and> launch w (Suc (started st)) = None \<and>
         file_open w = None"
proof -
  have a: "launch w (started st) = None"
    using assms run_launch_fail1[of w st] by (cases "launch w (started st)") auto
  have b: "launch w (Suc (started st)) = None"
    using assms a run_launch_fail2[of w st] by (cases "launch w (Suc (started st))") auto
  have "file_open w = None"
    using assms run_write_fail[OF a b] by (cases "file_open w") auto
  then show ?thesis using a b by simp
qed

lemma parse_items_length: "length (fst (parse_items w items st)) \<le> length items"
proof -
  have "length (concat (map (\<lambda>it. case fst (parse_item w it st) of Inl e \<Rightarrow> [] | Inr p \<Rightarrow> [p]) items))
          \<le> length items"
    by (induction items) (auto split: sum.splits)
  then show ?thesis using parse_items_fst[of w items st st] by simp
qed

lemma visit_products_nth:
  assumes "j < length ps"
  shows "fst (visit_products w d i ps st) ! j = fst (visit_product w d (i + j) (ps ! j) st0)"
  using assms by (simp add: visit_products_fst[where ?st0.0 = st0])

lemma visit_products_keeps:
  "map title (fst (visit_products w d i ps st)) = map title ps \<and>
   map price (fst (visit_products w d i ps st)) = map price ps \<and>
   map link (fst (visit_products w d i ps st)) = map link ps"
proof -
  have k: "title (fst (visit_product w d j p st)) = title p \<and>
           price (fst (visit_product w d j p st)) = price p \<and>
           link (fst (visit_product w d j p st)) = link p" for j p
    by (simp add: visit_product_fst split: option.splits)
  show ?thesis
    by (intro conjI nth_equalityI)
       (simp_all add: visit_products_length visit_products_nth[where ?st0.0 = st] k)
qed

lemma run_sample:
  "fst (scrape_products (sample_world n) init_state) =
     Inr (replicate n \<lparr>title = ''text'', price = ''text'',
                        link = Some ''https://www.bestbuy.com/p'',
                        rating = Some ''N/A'', review_count = Some ''N/A''\<rparr>)"
proof -
  let ?w = "sample_world n"
  let ?p = "\<lparr>title = ''text'', price = ''text'', link = Some ''https://www.bestbuy.com/p'',
             rating = None, review_count = None\<rparr>"
  have l: "launch ?w (started init_state) = None" "launch ?w (Suc (started init_state)) = None"
 "file_open ?w = None"
    by (simp_all add: sample_world_def)
  have pi: "fst (parse_item ?w it init_state) = Inr ?p" for it
    by (simp add: parse_item_fst sample_world_def)
  have ps: "fst (parse_items ?w items init_state) = replicate (length items) ?p" for items
    by (simp add: parse_items_fst[where ?st0.0 = init_state] pi map_replicate_const)
  have vp: "fst (visit_product ?w d i ?p init_state) =
              ?p\<lparr>rating := Some ''N/A'', review_count := Some ''N/A''\<rparr>" for d i
    by (simp add: visit_product_fst sample_world_def)
  have vs: "fst (visit_products ?w d 0 (replicate m ?p) init_state) =
              replicate m (?p\<lparr>rating := Some ''N/A'', review_count := Some ''N/A''\<rparr>)" for d m
    by (rule nth_equalityI)
       (simp_all add: visit_products_length visit_products_nth[where ?st0.0 = init_state] vp)
  show ?thesis
    using run_fst[OF l, of init_state] by (simp add: found_items_sample ps vs)
qed

lemma found_items_detail_indep:
  "found_items (w\<lparr>detail_get := dg, reviews_button := rb, reviews_header := rh,
                  elem_children := ec\<rparr>) d = found_items w d"
  by (simp add: found_items_def search_listing_fst split: option.splits sum.splits)

lemma parse_items_detail_indep:
  "fst (parse_items (w\<lparr>detail_get := dg, reviews_button := rb, reviews_header := rh,
                        elem_children := ec\<rparr>) items st) = fst (parse_items w items st)"
proof -
  have "fst (parse_item (w\<lparr>detail_get := dg, reviews_button := rb, reviews_header := rh,
                           elem_children := ec\<rparr>) it st) = fst (parse_item w it st)" for it
    by (simp add: parse_item_fst split: sum.splits)
  then show ?thesis
    by (simp add: parse_items_fst[where ?st0.0 = st] del: parse_items.simps)
qed

lemma printed_append: "printed (xs @ ys) = printed xs @ printed ys"
  by (simp add: printed_def)

lemma printed_simps [simp]:
  "printed [] = []"
  "printed (Printed r # es) = r # printed es"
  "printed (Launched d # es) = printed es"
  "printed (Released d # es) = printed es"
  "printed (DriverOp d # es) = printed es"
  "printed (ElementOp h # es) = printed es"
  by (simp_all add: printed_def)

lemma run_search_box_missing:
  assumes "launch w 0 = None" and "launch w 1 = None"
    and "site_get w 1 ''https://www.bestbuy.com/'' = None"
    and "search_box_wait w 1 = Some e"
  shows "live (snd (scrape_products w init_state)) = []"
    and "Released 0 \<in> set (trace (snd (scrape_products w init_state)))"
    and "Released 1 \<in> set (trace (snd (scrape_products w init_state)))"
    and "file_open w = None \<Longrightarrow> fst (scrape_products w init_state) = Inr []"
    and "file_open w = None \<Longrightarrow>
           saved (snd (scrape_products w init_state)) = Some (JArray [])"
    and "file_open w = None \<Longrightarrow>
           \<exists>pre. printed (trace (snd (scrape_products w init_state))) =
                   pre @ [ScrapingFailed e, FoundProducts 0, FinalList, Saved 0]"
    and "file_open w = Some e' \<Longrightarrow> fst (scrape_products w init_state) = Inl e'"
    and "file_open w = Some e' \<Longrightarrow> saved (snd (scrape_products w init_state)) = None"
    and "file_open w = Some e' \<Longrightarrow>
           \<exists>pre. printed (trace (snd (scrape_products w init_state))) =
                   pre @ [ScrapingFailed e, FoundProducts 0, FinalList]"
proof -
  let ?st1 = "\<lparr>started = 2, live = [Suc 0, 0], trace = [Launched 0, Launched (Suc 0),
                DriverOp (Suc 0), Printed PageLoaded], saved = None\<rparr>"
  let ?c = "click_optional w (Suc 0) [''a.us-link''] ?st1"
  let ?fin = "?c\<lparr>live := [], trace := trace ?c @ [DriverOp (Suc 0),
                 Printed (ScrapingFailed e), Released (Suc 0), Printed (FoundProducts 0),
                 Printed FinalList, Printed (Saved 0), Released 0],
                 saved := Some (JArray [])\<rparr>"
  let ?bad = "?c\<lparr>live := [], trace := trace ?c @ [DriverOp (Suc 0),
                 Printed (ScrapingFailed e), Released (Suc 0), Printed (FoundProducts 0),
                 Printed FinalList, Released 0]\<rparr>"
  have fc: "frame ?st1 ?c" by (rule frame_click_optional)
  then have lc: "live ?c = [Suc 0, 0]" and sc: "saved ?c = None"
    by (simp_all add: frame_def)
  have sl: "search_listing w (Suc 0) ''https://www.bestbuy.com/'' ''laptop'' [''a.us-link'']
              ''li.product-list-item''
              \<lparr>started = 2, live = [Suc 0, 0], trace = [Launched 0, Launched (Suc 0)],
                saved = None\<rparr>
            = (Inl e, emit (DriverOp (Suc 0)) ?c)"
    using assms(3,4)
    by (simp add: search_listing_def Let_def emit_def del: click_optional.simps)
  have g0: "get_driver w init_state =
              (Inr 0, \<lparr>started = Suc 0, live = [0], trace = [Launched 0], saved = None\<rparr>)"
    using assms(1) by (simp add: get_driver_def init_state_def emit_def Let_def)
  have g1: "get_driver w \<lparr>started = Suc 0, live = [0], trace = [Launched 0], saved = None\<rparr> =
              (Inr (Suc 0), \<lparr>started = 2, live = [Suc 0, 0],
                             trace = [Launched 0, Launched (Suc 0)], saved = None\<rparr>)"
    using assms(2) by (simp add: get_driver_def emit_def Let_def)
  have ok: "scrape_products w init_state = (Inr [], ?fin)" if "file_open w = None"
    using that
    by (simp add: scrape_products_def scrape_site_def g0 g1 sl collect_products_def
                  driver_quit_def print_products_def products_json_def emit_def lc Let_def
             del: click_optional.simps)
  have bad: "scrape_products w init_state = (Inl x, ?bad)" if "file_open w = Some x" for x
    using that
    by (simp add: scrape_products_def scrape_site_def g0 g1 sl collect_products_def
                  driver_quit_def print_products_def emit_def lc Let_def
             del: click_optional.simps)
  show "live (snd (scrape_products w init_state)) = []"
    using ok bad by (cases "file_open w") simp_all
  show "Released 0 \<in> set (trace (snd (scrape_products w init_state)))"
    using ok bad by (cases "file_open w") simp_all
  show "Released 1 \<in> set (trace (snd (scrape_products w init_state)))"
    using ok bad by (cases "file_open w") simp_all
  show "fst (scrape_products w init_state) = Inr []" if "file_open w = None"
    by (simp add: ok[OF that])
  show "saved (snd (scrape_products w init_state)) = Some (JArray [])" if "file_open w = None"
    by (simp add: ok[OF that])
  show "\<exists>pre. printed (trace (snd (scrape_products w init_state))) =
                 pre @ [ScrapingFailed e, FoundProducts 0, FinalList, Saved 0]"
    if "file_open w = None"
    by (rule exI[of _ "printed (trace ?c)"]) (simp add: ok[OF that] printed_append)
  show "fst (scrape_products w init_state) = Inl e'" if "file_open w = Some e'"
    by (simp add: bad[OF that])
  show "saved (snd (scrape_products w init_state)) = None" if "file_open w = Some e'"
    by (simp add: bad[OF that] sc del: click_optional.simps)
  show "\<exists>pre. printed (trace (snd (scrape_products w init_state))) =
                 pre @ [ScrapingFailed e, FoundProducts 0, FinalList]"
    if "file_open w = Some e'"
    by (rule exI[of _ "printed (trace ?c)"]) (simp add: bad[OF that] printed_append)
qed

lemma stale_use_after_release:
  assumes "d \<in> set rel \<or> Released d \<in> set xs" and "owner h = d"
  shows "stale_use rel (xs @ ElementOp h # zs)"
  using assms
proof (induction xs arbitrary: rel)
  case Nil
  then show ?case by simp
next
  case (Cons x xs)
  show ?case
  proof (cases x)
    case (Released d')
    then show ?thesis using Cons.IH[of "d' # rel"] Cons.prems by auto
  next
    case (Launched d')
    then show ?thesis using Cons.IH[of rel] Cons.prems by auto
  next
    case (DriverOp d')
    then show ?thesis using Cons.IH[of rel] Cons.prems by auto
  next
    case (ElementOp h')
    then show ?thesis using Cons.IH[of rel] Cons.prems by auto
  next
    case (Printed r)
    then show ?thesis using Cons.IH[of rel] Cons.prems by auto
  qed
qed

lemma found_items_owner: "h \<in> set (found_items w d) \<Longrightarrow> owner h = d"
  by (auto simp: found_items_def search_listing_fst split: option.splits sum.splits)

lemma parse_items_first:
  "\<exists>zs. trace (snd (parse_items w (it # items) st)) = trace st @ ElementOp it # zs"
proof -
  obtain r st1 where r: "parse_item w it st = (r, st1)" by (cases "parse_item w it st")
  have "\<exists>ys. trace st1 = trace st @ ElementOp it # ys"
    using r by (auto simp: parse_item_def Let_def split: sum.splits)
  then obtain ys where ys: "trace st1 = trace st @ ElementOp it # ys" by blast
  show ?thesis
  proof (cases r)
    case (Inl e)
    have "frame (emit (Printed (SkippedProduct e)) st1)
            (snd (parse_items w items (emit (Printed (SkippedProduct e)) st1)))"
      by (rule frame_parse_items)
    then show ?thesis using r Inl ys by (auto simp: frame_def prefix_def)
  next
    case (Inr p)
    have "frame st1 (snd (parse_items w items st1))" by (rule frame_parse_items)
    then show ?thesis using r Inr ys by (auto simp: frame_def prefix_def split: prod.splits)
  qed
qed

lemma collect_products_trace:
  "prefix (trace (snd (parse_items w items st))) (trace (snd (collect_products w d items st)))"
proof -
  obtain ps st1 where a: "parse_items w items st = (ps, st1)"
    by (cases "parse_items w items st")
  let ?st1 = "emit (Printed (FoundProducts (length ps))) st1"
  obtain ps' st2 where b: "visit_products w d 0 ps ?st1 = (ps', st2)"
    by (cases "visit_products w d 0 ps ?st1")
  have "frame ?st1 st2" using frame_visit_products[of ?st1 w d 0 ps] b by simp
  then have "prefix (trace st1) (trace st2)" by (auto simp: frame_def prefix_def)
  then show ?thesis
    using a b
    by (auto simp: collect_products_def Let_def print_products_def prefix_def
             split: option.splits)
qed

lemma scrape_site_released:
  assumes "launch w (started st) = None"
  shows "Released (started st) \<in> set (trace (snd (scrape_site w url t sels isel st)))"
proof -
  let ?st1 = "emit (Launched (started st))
                (st\<lparr>started := Suc (started st), live := started st # live st\<rparr>)"
  obtain r st2 where r: "search_listing w (started st) url t sels isel ?st1 = (r, st2)"
    by (cases "search_listing w (started st) url t sels isel ?st1")
  show ?thesis
    using r by (cases r) (simp_all add: scrape_site_def get_driver_ok[OF assms] driver_quit_def)
qed

lemma run_stale:
  assumes "launch w (started st) = None" and "launch w (Suc (started st)) = None"
    and "found_items w (Suc (started st)) \<noteq> []"
  shows "stale_use rel (trace (snd (scrape_products w st)))"
proof -
  let ?d1 = "Suc (started st)"
  let ?st1 = "emit (Launched (started st))
                (st\<lparr>started := Suc (started st), live := started st # live st\<rparr>)"
  have l: "launch w (started ?st1) = None" using assms(2) by simp
  obtain r st2 where r: "scrape_site w ''https://www.bestbuy.com/'' ''laptop'' [''a.us-link'']
                           ''li.product-list-item'' ?st1 = (r, st2)"
    by (cases "scrape_site w ''https://www.bestbuy.com/'' ''laptop'' [''a.us-link'']
                 ''li.product-list-item'' ?st1")
  have ri: "r = Inr (found_items w ?d1)" using scrape_site_ok[OF l] r by simp
  have rel: "Released ?d1 \<in> set (trace st2)"
    using scrape_site_released[OF l, of "''https://www.bestbuy.com/''" "''laptop''"
             "[''a.us-link'']" "''li.product-list-item''"] r by simp
  obtain it items where it: "found_items w ?d1 = it # items"
    using assms(3) by (cases "found_items w ?d1") auto
  have ow: "owner it = ?d1" using found_items_owner[of it w ?d1] it by simp
  obtain zs where zs: "trace (snd (parse_items w (it # items) st2)) = trace st2 @ ElementOp it # zs"
    using parse_items_first by blast
  obtain ys where ys: "trace (snd (collect_products w (started st) (it # items) st2))
                         = (trace st2 @ ElementOp it # zs) @ ys"
    using collect_products_trace[of w "it # items" st2 "started st"] zs
    by (auto simp: prefix_def)
  have fin: "trace (snd (scrape_products w st)) = trace st2 @ ElementOp it # (zs @ ys @ [Released (started st)])"
    using r ri it ys
    by (auto simp: scrape_products_def get_driver_ok[OF assms(1)] driver_quit_def
             split: prod.splits)
  show ?thesis unfolding fin using rel ow by (intro stale_use_after_release) auto
qed

lemma run_started:
  assumes "launch w (started st) = None" and "launch w (Suc (started st)) = None"
  shows "started (snd (scrape_products w st)) = Suc (Suc (started st))"
proof -
  let ?st1 = "emit (Launched (started st))
                (st\<lparr>started := Suc (started st), live := started st # live st\<rparr>)"
  have l: "launch w (started ?st1) = None" using assms(2) by simp
  obtain r st2 where r: "scrape_site w ''https://www.bestbuy.com/'' ''laptop'' [''a.us-link'']
                           ''li.product-list-item'' ?st1 = (r, st2)"
    by (cases "scrape_site w ''https://www.bestbuy.com/'' ''laptop'' [''a.us-link'']
                 ''li.product-list-item'' ?st1")
  have ri: "r = Inr (found_items w (Suc (started st)))" using scrape_site_ok[OF l] r by simp
  have s2: "started st2 = Suc (Suc (started st))"
    using scrape_site_started[of w "''https://www.bestbuy.com/''" "''laptop''"
            "[''a.us-link'']" "''li.product-list-item''" ?st1] r by simp
  obtain ps st3 where c: "collect_products w (started st) (found_items w (Suc (started st))) st2 = (ps, st3)"
    by (cases "collect_products w (started st) (found_items w (Suc (started st))) st2")
  obtain qs st2a where a: "parse_items w (found_items w (Suc (started st))) st2 = (qs, st2a)"
    by (cases "parse_items w (found_items w (Suc (started st))) st2")
  let ?st2b = "emit (Printed (FoundProducts (length qs))) st2a"
  obtain qs' st2c where b: "visit_products w (started st) 0 qs ?st2b = (qs', st2c)"
    by (cases "visit_products w (started st) 0 qs ?st2b")
  have "frame st2 st2a" using frame_parse_items[of st2 w "found_items w (Suc (started st))"] a by simp
  moreover have "frame ?st2b st2c" using frame_visit_products[of ?st2b w "started st" 0 qs] b by simp
  ultimately have "started st2c = started st2" by (simp add: frame_def)
  then have "started st3 = started st2"
    using a b c
    by (auto simp: collect_products_def Let_def print_products_def split: option.splits)
  then show ?thesis
    using r ri c s2
    by (simp add: scrape_products_def get_driver_ok[OF assms(1)] driver_quit_def)
qed

lemma run_broken:
  "fst (scrape_products broken_world init_state) =
     Inr [\<lparr>title = ''text'', price = ''text'', link = Some ''https://www.bestbuy.com/p'',
           rating = Some ''N/A'', review_count = Some ''N/A''\<rparr>,
          \<lparr>title = ''text'', price = ''text'', link = Some ''https://www.bestbuy.com/p'',
           rating = None, review_count = None\<rparr>,
          \<lparr>title = ''text'', price = ''text'', link = Some ''https://www.bestbuy.com/p'',
           rating = Some ''N/A'', review_count = Some ''N/A''\<rparr>]"
proof -
  have l: "launch broken_world (started init_state) = None"
          "launch broken_world (Suc (started init_state)) = None"
          "file_open broken_world = None"
    by (simp_all add: broken_world_def sample_world_def)
  let ?P = "fst (parse_items broken_world (found_items broken_world (Suc 0)) init_state)"
  let ?ps = "fst (visit_products broken_world 0 0 ?P init_state)"
  have s0: "started init_state = 0" by (simp add: init_state_def)
  have r: "fst (scrape_products broken_world init_state) = Inr ?ps"
    using run_fst[OF l, of init_state] by (simp add: s0)
  have f: "found_items broken_world (Suc 0) = map (\<lambda>i. Handle (Suc 0) [i]) [0..<3]"
    by (simp add: found_items_def search_listing_fst broken_world_def sample_world_def)
  have P: "?P = replicate 3 \<lparr>title = ''text'', price = ''text'',
                   link = Some ''https://www.bestbuy.com/p'', rating = None, review_count = None\<rparr>"
    unfolding f
    by (simp add: parse_items_fst[where ?st0.0 = init_state] parse_item_fst
                  broken_world_def sample_world_def map_replicate_const
             del: parse_items.simps)
  show ?thesis
    unfolding r P
    by (simp add: visit_products_fst[where ?st0.0 = init_state] visit_product_fst
                  broken_world_def sample_world_def numeral_3_eq_3 upt_rec
             del: visit_products.simps)
qed

lemma found_items_dead:
  "found_items (dead_handles_world n) d = map (\<lambda>i. Handle d [i]) [0..<n]"
  by (simp add: found_items_def search_listing_fst dead_handles_world_def sample_world_def)

lemma parse_items_dead:
  "fst (parse_items (dead_handles_world n) items st) = [] \<and>
   printed (trace (snd (parse_items (dead_handles_world n) items st))) =
     printed (trace st) @ replicate (length items) (SkippedProduct WebDriverException)"
proof (induction items arbitrary: st)
  case Nil
  show ?case by simp
next
  case (Cons it items)
  have p: "parse_item (dead_handles_world n) it st = (Inl WebDriverException, emit (ElementOp it) st)"
    by (simp add: parse_item_def dead_handles_world_def sample_world_def Let_def)
  show ?case
    using Cons.IH[of "emit (Printed (SkippedProduct WebDriverException)) (emit (ElementOp it) st)"]
    by (simp add: p printed_append replicate_append_same)
qed

lemma run_dead: "fst (scrape_products (dead_handles_world n) init_state) = Inr []"
proof -
  have l: "launch (dead_handles_world n) (started init_state) = None"
          "launch (dead_handles_world n) (Suc (started init_state)) = None"
          "file_open (dead_handles_world n) = None"
    by (simp_all add: dead_handles_world_def sample_world_def)
  show ?thesis
    using run_fst[OF l, of init_state] by (simp add: parse_items_dead)
qed

section \<open>Properties of the specification\<close>

subsection \<open>Sentiment\<close>

text \<open>
  C10, as stated, fails. The claim covers every input that is not a string. For an
  object whose truth test raises, the guard of \<open>analyze_sentiment\<close>, which stands before
  the \<open>try\<close>, raises, and the exception leaves the function.
\<close>

theorem analyze_sentiment_raises_counterexample:
  "\<not> isinstance_str (PyObject (Inl TypeError)) \<and>
   analyze_sentiment failing_scorer (PyObject (Inl TypeError)) = Inl TypeError \<and>
   analyze_sentiment half_scorer (PyObject (Inl ValueError)) = Inl ValueError"
  by (simp add: analyze_sentiment_def)

text \<open>
  C10, amended. \<open>analyze_sentiment\<close> raises only when the truth test of its input
  raises, and then with that exception. For every other input it returns a number:
  \<open>0.0\<close> for \<open>None\<close>, for the empty string and for every value that is not a string,
  and \<open>0.0\<close> as well when the scorer raises on the cleaned text of a string. For a
  string it never raises.
\<close>

theorem analyze_sentiment_raises_only_on_truth_test:
  "(\<forall>e. truthy text = Inl e \<longrightarrow> analyze_sentiment sia text = Inl e) \<and>
   (\<forall>b. truthy text = Inr b \<longrightarrow> (\<exists>r. analyze_sentiment sia text = Inr r)) \<and>
   (\<forall>b. truthy text = Inr b \<and> (\<not> b \<or> \<not> isinstance_str text)
      \<longrightarrow> analyze_sentiment sia text = Inr 0) \<and>
   analyze_sentiment sia PyNone = Inr 0 \<and>
   analyze_sentiment sia (PyStr []) = Inr 0 \<and>
   (\<exists>r. analyze_sentiment sia (PyStr s) = Inr r) \<and>
   (\<forall>s e. sia (preprocess_text s) = Inl e \<longrightarrow> analyze_sentiment sia (PyStr s) = Inr 0)"
proof (intro conjI)
  show "\<forall>e. truthy text = Inl e \<longrightarrow> analyze_sentiment sia text = Inl e"
    by (simp add: analyze_sentiment_def)
  show "\<forall>b. truthy text = Inr b \<longrightarrow> (\<exists>r. analyze_sentiment sia text = Inr r)"
    by (simp add: analyze_sentiment_def split: sum.splits)
  show "\<forall>b. truthy text = Inr b \<and> (\<not> b \<or> \<not> isinstance_str text)
          \<longrightarrow> analyze_sentiment sia text = Inr 0"
    by (auto simp: analyze_sentiment_def)
  show "analyze_sentiment sia PyNone = Inr 0"
    by (simp add: analyze_sentiment_def)
  show "analyze_sentiment sia (PyStr []) = Inr 0"
    by (simp add: analyze_sentiment_def)
  show "\<exists>r. analyze_sentiment sia (PyStr s) = Inr r"
    by (simp add: analyze_sentiment_def split: sum.splits)
  show "\<forall>s e. sia (preprocess_text s) = Inl e \<longrightarrow> analyze_sentiment sia (PyStr s) = Inr 0"
    by (auto simp: analyze_sentiment_def compound_score_def)
qed

theorem analyze_sentiment_raises_only_on_truth_test_witness:
  "analyze_sentiment failing_scorer (PyObject (Inl TypeError)) = Inl TypeError \<and>
   analyze_sentiment failing_scorer PyNone = Inr 0 \<and>
   analyze_sentiment failing_scorer (PyInt 7) = Inr 0 \<and>
   analyze_sentiment failing_scorer (PyObject (Inr True)) = Inr 0 \<and>
   analyze_sentiment failing_scorer (PyStr ''Great laptop'') = Inr 0"
  using analyze_sentiment_raises_only_on_truth_test
          [of "PyObject (Inl TypeError)" failing_scorer "''Great laptop''"]
        analyze_sentiment_raises_only_on_truth_test [of "PyInt 7" failing_scorer]
        analyze_sentiment_raises_only_on_truth_test [of "PyObject (Inr True)" failing_scorer]
  by (auto simp: failing_scorer_def)

text \<open>
  C9. Provided the scorer of the external library returns compound scores in \<open>[-1, 1]\<close>:
  for every input string \<open>analyze_sentiment\<close> returns a score in \<open>[-1, 1]\<close>; so it does
  for every other input whose truth test returns; and whatever the input, a score that
  is returned lies in \<open>[-1, 1]\<close>. \<open>get_sentiment_label\<close> answers \<open>Positive\<close> exactly for
  scores of at least \<open>0.05\<close>, \<open>Negative\<close> exactly for scores of at most \<open>-0.05\<close>, and
  \<open>Neutral\<close> exactly in between, so every score has one label.
\<close>

theorem sentiment_score_and_label:
  assumes "\<And>t m c. sia t = Inr m \<Longrightarrow> m ''compound'' = Some c \<Longrightarrow> - 1 \<le> c \<and> c \<le> 1"
  shows "(\<exists>r. analyze_sentiment sia (PyStr s) = Inr r \<and> - 1 \<le> r \<and> r \<le> 1) \<and>
         (\<forall>b. truthy text = Inr b \<longrightarrow>
            (\<exists>r. analyze_sentiment sia text = Inr r \<and> - 1 \<le> r \<and> r \<le> 1)) \<and>
         (\<forall>r. analyze_sentiment sia text = Inr r \<longrightarrow> - 1 \<le> r \<and> r \<le> 1) \<and>
         (get_sentiment_label score = ''Positive'' \<longleftrightarrow> score \<ge> 0.05) \<and>
         (get_sentiment_label score = ''Negative'' \<longleftrightarrow> score \<le> - 0.05) \<and>
         (get_sentiment_label score = ''Neutral'' \<longleftrightarrow> - 0.05 < score \<and> score < 0.05)"
proof -
  have range: "- 1 \<le> r \<and> r \<le> 1" if "analyze_sentiment sia v = Inr r" for v r
  proof (cases "truthy v")
    case (Inl e)
    then show ?thesis using that by (simp add: analyze_sentiment_def)
  next
    case (Inr b)
    show ?thesis
    proof (cases "\<not> b \<or> \<not> isinstance_str v")
      case True
      then show ?thesis using that Inr by (auto simp: analyze_sentiment_def)
    next
      case False
      then obtain u where u: "v = PyStr u" by (cases v) auto
      show ?thesis
      proof (cases "compound_score sia v")
        case (Inl e)
        then show ?thesis using that False Inr by (simp add: analyze_sentiment_def)
      next
        case c: (Inr c)
        then obtain m where "sia (preprocess_text u) = Inr m" "m ''compound'' = Some c"
          using u by (auto simp: compound_score_def split: sum.splits option.splits)
        then have "- 1 \<le> c \<and> c \<le> 1" using assms by blast
        then show ?thesis using that False Inr c by (simp add: analyze_sentiment_def)
      qed
    qed
  qed
  have ret: "\<exists>r. analyze_sentiment sia v = Inr r" if "truthy v = Inr b" for v b
    using that by (simp add: analyze_sentiment_def split: sum.splits)
  have a: "\<exists>r. analyze_sentiment sia (PyStr s) = Inr r \<and> - 1 \<le> r \<and> r \<le> 1"
    using ret[of "PyStr s"] range[of "PyStr s"] by auto
  have b: "\<forall>b. truthy text = Inr b \<longrightarrow>
             (\<exists>r. analyze_sentiment sia text = Inr r \<and> - 1 \<le> r \<and> r \<le> 1)"
    using ret[of "text"] range[of "text"] by blast
  have c: "\<forall>r. analyze_sentiment sia text = Inr r \<longrightarrow> - 1 \<le> r \<and> r \<le> 1"
    using range[of "text"] by blast
  have p: "get_sentiment_label score = ''Positive'' \<longleftrightarrow> score \<ge> 0.05"
    by (simp add: get_sentiment_label_def)
  have n: "get_sentiment_label score = ''Negative'' \<longleftrightarrow> score \<le> - 0.05"
    by (simp add: get_sentiment_label_def)
  have u: "get_sentiment_label score = ''Neutral'' \<longleftrightarrow> - 0.05 < score \<and> score < 0.05"
    by (auto simp: get_sentiment_label_def)
  show ?thesis using a b c p n u by blast
qed

theorem sentiment_score_and_label_witness:
  "analyze_sentiment half_scorer (PyStr ''Great laptop'') = Inr (1 / 2) \<and>
   (\<exists>r. analyze_sentiment half_scorer (PyStr ''Great laptop'') = Inr r
        \<and> - 1 \<le> r \<and> r \<le> 1) \<and>
   (\<exists>r. analyze_sentiment half_scorer (PyInt 7) = Inr r \<and> - 1 \<le> r \<and> r \<le> 1) \<and>
   get_sentiment_label (1 / 2) = ''Positive''"
proof -
  have t: "(\<exists>r. analyze_sentiment half_scorer (PyStr ''Great laptop'') = Inr r
               \<and> - 1 \<le> r \<and> r \<le> 1) \<and>
           (\<forall>b. truthy (PyInt 7) = Inr b \<longrightarrow>
              (\<exists>r. analyze_sentiment half_scorer (PyInt 7) = Inr r \<and> - 1 \<le> r \<and> r \<le> 1)) \<and>
           (\<forall>r. analyze_sentiment half_scorer (PyInt 7) = Inr r \<longrightarrow> - 1 \<le> r \<and> r \<le> 1) \<and>
           (get_sentiment_label (1 / 2) = ''Positive'' \<longleftrightarrow> (1 / 2 :: real) \<ge> 0.05) \<and>
           (get_sentiment_label (1 / 2) = ''Negative'' \<longleftrightarrow> (1 / 2 :: real) \<le> - 0.05) \<and>
           (get_sentiment_label (1 / 2) = ''Neutral''
              \<longleftrightarrow> - 0.05 < (1 / 2 :: real) \<and> (1 / 2 :: real) < 0.05)"
    by (rule sentiment_score_and_label) (auto simp: half_scorer_def)
  have v: "analyze_sentiment half_scorer (PyStr ''Great laptop'') = Inr (1 / 2)"
    by (simp add: analyze_sentiment_def compound_score_def half_scorer_def)
  have i: "truthy (PyInt 7) = Inr True" by simp
  show ?thesis using t v i by auto
qed

subsection \<open>Reviews\<close>

text \<open>
  C3. The review loop appends one review for every review handle, in order, whatever
  the lookups do; each review has the four keys, and each of the four values is the
  text found by its own lookup, or \<open>"N/A"\<close> when that lookup fails, independently of the
  other three. So a review without \<open>posted_by\<close> is still appended, with
  \<open>posted_by = "N/A"\<close>.
\<close>

theorem review_fields_fall_back:
  "length (fst (extract_reviews w rvs st)) = length rvs \<and>
   (\<forall>i<length rvs. fst (extract_reviews w rvs st) ! i = extract_review w (rvs ! i)) \<and>
   map fst (extract_review w rv) = [''rating'', ''title'', ''content'', ''posted_by''] \<and>
   map_of (extract_review w rv) ''rating'' =
     Some (case elem_text w rv ''span.sr-only'' of Inl e \<Rightarrow> ''N/A'' | Inr t \<Rightarrow> t) \<and>
   map_of (extract_review w rv) ''title'' =
     Some (case elem_text w rv ''h4.body-copy-lg'' of Inl e \<Rightarrow> ''N/A'' | Inr t \<Rightarrow> t) \<and>
   map_of (extract_review w rv) ''content'' =
     Some (case elem_text w rv ''p.body-copy-lg'' of Inl e \<Rightarrow> ''N/A'' | Inr t \<Rightarrow> t) \<and>
   map_of (extract_review w rv) ''posted_by'' =
     Some (case elem_text w rv ''p[data-testid='posted-by']'' of Inl e \<Rightarrow> ''N/A'' | Inr t \<Rightarrow> t)"
proof -
  have m: "fst (extract_reviews w rvs st) = map (extract_review w) rvs" for st
  proof (induction rvs arbitrary: st)
    case Nil
    show ?case by simp
  next
    case (Cons rv rvs)
    let ?st1 = "emit (ElementOp rv) (emit (ElementOp rv)
                  (emit (ElementOp rv) (emit (ElementOp rv) st)))"
    obtain rs st2 where r: "extract_reviews w rvs ?st1 = (rs, st2)"
      by (cases "extract_reviews w rvs ?st1")
    then have "rs = map (extract_review w) rvs" using Cons.IH[of ?st1] by simp
    then show ?case using r by (simp add: Let_def)
  qed
  show ?thesis
    by (simp add: m extract_review_def Let_def)
qed

theorem review_fields_fall_back_witness:
  "length (fst (extract_reviews no_author_world [Handle 0 [0, 0]] init_state)) = 1 \<and>
   fst (extract_reviews no_author_world [Handle 0 [0, 0]] init_state) ! 0 =
     [(''rating'', ''text''), (''title'', ''text''),
      (''content'', ''text''), (''posted_by'', ''N/A'')]"
  using review_fields_fall_back [of no_author_world "[Handle 0 [0, 0]]" init_state "Handle 0 [0, 0]"]
  by (simp add: extract_review_def no_author_world_def sample_world_def)

subsection \<open>The listing loop\<close>

text \<open>
  C2, as stated, fails. On a page with one item whose title element is missing, while
  its price and its link are there, the item is not returned with a sentinel title: the
  listing loop skips it, and the run returns no product. The same happens on a page
  with one item on which every lookup raises.
\<close>

theorem listing_fields_counterexample:
  "elem_text untitled_world (Handle 1 [0]) ''h2.product-title'' = Inl NoSuchElementException \<and>
   elem_text untitled_world (Handle 1 [0])
     ''div[data-testid='price-block-customer-price'] span'' = Inr ''text'' \<and>
   elem_attr untitled_world (Handle 1 [0]) ''a.product-list-item-link'' ''href''
     = Inr (Some ''https://www.bestbuy.com/p'') \<and>
   found_items untitled_world 1 = [Handle 1 [0]] \<and>
   fst (parse_items untitled_world [Handle 1 [0]] init_state) = [] \<and>
   fst (scrape_products untitled_world init_state) = Inr [] \<and>
   found_items (dead_handles_world 1) 1 = [Handle 1 [0]] \<and>
   fst (scrape_products (dead_handles_world 1) init_state) = Inr []"
proof -
  have l: "launch untitled_world (started init_state) = None"
          "launch untitled_world (Suc (started init_state)) = None"
          "file_open untitled_world = None"
    by (simp_all add: untitled_world_def sample_world_def)
  have f: "found_items untitled_world (Suc 0) = [Handle (Suc 0) [0]]"
    by (simp add: found_items_def search_listing_fst untitled_world_def sample_world_def)
  have p: "fst (parse_items untitled_world [Handle (Suc 0) [0]] init_state) = []"
    by (simp add: parse_items_fst[where ?st0.0 = init_state] parse_item_fst
                  untitled_world_def sample_world_def del: parse_items.simps)
  have "started init_state = 0" by (simp add: init_state_def)
  then have r: "fst (scrape_products untitled_world init_state) = Inr []"
    using run_fst[OF l, of init_state] by (simp add: f p del: parse_items.simps)
  have o: "elem_text untitled_world (Handle 1 [0]) ''h2.product-title''
             = Inl NoSuchElementException \<and>
           elem_text untitled_world (Handle 1 [0])
             ''div[data-testid='price-block-customer-price'] span'' = Inr ''text'' \<and>
           elem_attr untitled_world (Handle 1 [0]) ''a.product-list-item-link'' ''href''
             = Inr (Some ''https://www.bestbuy.com/p'')"
    by (simp add: untitled_world_def sample_world_def)
  have d: "found_items (dead_handles_world 1) (Suc 0) = [Handle (Suc 0) [0]]"
    by (simp add: found_items_dead)
  show ?thesis using f p r o d run_dead[of 1] by (simp del: parse_items.simps)
qed

text \<open>
  C2, amended. The three lookups of an item stand in one \<open>try\<close> block: an item yields
  a product exactly when all three succeed, with the three values found; when any of
  them fails the whole item is skipped and no sentinel is stored. The products keep the
  order of the items.
\<close>

theorem listing_items_all_or_nothing:
  "fst (parse_items w items st) =
     concat (map (\<lambda>item.
       case elem_text w item ''h2.product-title'' of
         Inl e \<Rightarrow> []
       | Inr t \<Rightarrow>
           (case elem_text w item ''div[data-testid='price-block-customer-price'] span'' of
              Inl e \<Rightarrow> []
            | Inr pr \<Rightarrow>
                (case elem_attr w item ''a.product-list-item-link'' ''href'' of
                   Inl e \<Rightarrow> []
                 | Inr l \<Rightarrow> [\<lparr>title = t, price = pr, link = l,
                               rating = None, review_count = None\<rparr>]))) items)"
proof -
  have "(\<lambda>it. case fst (parse_item w it st) of Inl e \<Rightarrow> [] | Inr p \<Rightarrow> [p]) =
        (\<lambda>item.
       case elem_text w item ''h2.product-title'' of
         Inl e \<Rightarrow> []
       | Inr t \<Rightarrow>
           (case elem_text w item ''div[data-testid='price-block-customer-price'] span'' of
              Inl e \<Rightarrow> []
            | Inr pr \<Rightarrow>
                (case elem_attr w item ''a.product-list-item-link'' ''href'' of
                   Inl e \<Rightarrow> []
                 | Inr l \<Rightarrow> [\<lparr>title = t, price = pr, link = l,
                               rating = None, review_count = None\<rparr>])))"
    by (rule ext) (simp add: parse_item_fst split: sum.splits)
  then show ?thesis using parse_items_fst[of w items st st] by simp
qed

theorem listing_items_all_or_nothing_witness:
  "fst (parse_items (sample_world 2) [Handle 1 [0], Handle 1 [1]] init_state) =
     [\<lparr>title = ''text'', price = ''text'', link = Some ''https://www.bestbuy.com/p'',
       rating = None, review_count = None\<rparr>,
      \<lparr>title = ''text'', price = ''text'', link = Some ''https://www.bestbuy.com/p'',
       rating = None, review_count = None\<rparr>] \<and>
   fst (parse_items untitled_world [Handle 1 [0]] init_state) = []"
  using listing_items_all_or_nothing [of "sample_world 2" "[Handle 1 [0], Handle 1 [1]]" init_state]
        listing_items_all_or_nothing [of untitled_world "[Handle 1 [0]]" init_state]
  by (simp add: sample_world_def untitled_world_def del: parse_items.simps)

text \<open>
  C7, as stated, fails. When the search lists 51 items, all 51 are parsed and 51
  products are returned, more than \<open>MAX_PRODUCTS\<close> and \<open>MAX_PRODUCTS_DETAIL\<close>. When
  every lookup raises, the loop still goes through the 51 items and prints 51 skips.
\<close>

theorem caps_counterexample:
  "length (found_items (sample_world 51) 1) = 51 \<and>
   map_sum id length (fst (scrape_products (sample_world 51) init_state)) = Inr 51 \<and>
   length (found_items (dead_handles_world 51) 1) = 51 \<and>
   printed (trace (snd (parse_items (dead_handles_world 51)
                          (found_items (dead_handles_world 51) 1) init_state))) =
     replicate 51 (SkippedProduct WebDriverException) \<and>
   \<not> 51 \<le> MAX_PRODUCTS \<and> \<not> 51 \<le> MAX_PRODUCTS_DETAIL"
proof -
  have t: "trace init_state = []" by (simp add: init_state_def)
  have a: "printed (trace (snd (parse_items (dead_handles_world 51)
                                  (found_items (dead_handles_world 51) 1) init_state))) =
             replicate 51 (SkippedProduct WebDriverException)"
    using parse_items_dead[of 51 "found_items (dead_handles_world 51) 1" init_state]
    by (simp add: found_items_dead t)
  have b: "map_sum id length (fst (scrape_products (sample_world 51) init_state)) = Inr 51"
    by (simp add: run_sample)
  show ?thesis
    using a b
    by (simp add: found_items_sample found_items_dead MAX_PRODUCTS_def MAX_PRODUCTS_DETAIL_def)
qed

text \<open>
  C7, amended. No limit is applied: the listing loop goes through every item handle, and
  the number of products is the number of handles whose three lookups succeed (at most
  the number of handles); the review loop builds one review for every review handle.
\<close>

theorem loops_have_no_cap:
  "length (fst (parse_items w items st)) =
     length (filter (\<lambda>item. \<not> isl (fst (parse_item w item st))) items) \<and>
   length (fst (parse_items w items st)) \<le> length items \<and>
   length (fst (extract_reviews w rvs st')) = length rvs"
proof (intro conjI)
  have "length (concat (map (\<lambda>it. case fst (parse_item w it st) of Inl e \<Rightarrow> [] | Inr p \<Rightarrow> [p]) items))
          = length (filter (\<lambda>item. \<not> isl (fst (parse_item w item st))) items)"
    by (induction items) (auto split: sum.splits)
  then show "length (fst (parse_items w items st)) =
               length (filter (\<lambda>item. \<not> isl (fst (parse_item w item st))) items)"
    using parse_items_fst[of w items st st] by simp
  show "length (fst (parse_items w items st)) \<le> length items"
    by (rule parse_items_length)
  show "length (fst (extract_reviews w rvs st')) = length rvs"
  proof (induction rvs arbitrary: st')
    case Nil
    show ?case by simp
  next
    case (Cons rv rvs)
    let ?st1 = "emit (ElementOp rv) (emit (ElementOp rv)
                  (emit (ElementOp rv) (emit (ElementOp rv) st')))"
    obtain rs st2 where r: "extract_reviews w rvs ?st1 = (rs, st2)"
      by (cases "extract_reviews w rvs ?st1")
    then have "length rs = length rvs" using Cons.IH[of ?st1] by simp
    then show ?case using r by (simp add: Let_def)
  qed
qed

theorem loops_have_no_cap_witness:
  "length (fst (parse_items (sample_world 51) (found_items (sample_world 51) 1) init_state)) = 51 \<and>
   length (fst (extract_reviews (sample_world 51) (found_items (sample_world 51) 1) init_state)) = 51 \<and>
   \<not> 51 \<le> MAX_REVIEWS_PER_PRODUCT"
proof -
  have "filter (\<lambda>item. \<not> isl (fst (parse_item (sample_world 51) item init_state)))
          (found_items (sample_world 51) 1) = found_items (sample_world 51) 1"
    by (simp add: parse_item_fst sample_world_def)
  then show ?thesis
    using loops_have_no_cap [of "sample_world 51" "found_items (sample_world 51) 1" init_state
                                "found_items (sample_world 51) 1" init_state]
    by (simp add: found_items_sample MAX_REVIEWS_PER_PRODUCT_def)
qed

subsection \<open>The product loop\<close>

text \<open>
  C1. Take a run in which both browsers start, and change what the site does for the
  \<open>k\<close>-th product only when its page is opened (and, for any product, when its reviews
  are opened and read). The product loop still goes through every product, and every
  product other than the \<open>k\<close>-th comes out of it as the same record as before. The run
  ends as before: when the output file can be opened it returns normally, with the same
  number of products, every product other than the \<open>k\<close>-th the same record, and no
  product, the \<open>k\<close>-th included, without its title, price or link; when the file cannot
  be opened, both runs end with that exception, which no item causes.
\<close>

theorem fault_isolation:
  assumes "launch w (started st) = None" and "launch w (Suc (started st)) = None"
    and "\<forall>d i l. i \<noteq> k \<longrightarrow> dg d i l = detail_get w d i l"
  shows "length (fst (visit_products
                        (w\<lparr>detail_get := dg, reviews_button := rb,
                           reviews_header := rh, elem_children := ec\<rparr>) d 0 P st1))
           = length P \<and>
         (\<forall>i<length P. i \<noteq> k \<longrightarrow>
            fst (visit_products
                   (w\<lparr>detail_get := dg, reviews_button := rb,
                      reviews_header := rh, elem_children := ec\<rparr>) d 0 P st1) ! i
              = fst (visit_products w d 0 P st2) ! i) \<and>
         (file_open w = None \<longrightarrow>
            (\<exists>ps ps'.
               fst (scrape_products w st) = Inr ps \<and>
               fst (scrape_products (w\<lparr>detail_get := dg, reviews_button := rb,
                                       reviews_header := rh, elem_children := ec\<rparr>) st)
                 = Inr ps' \<and>
               length ps' = length ps \<and>
               (\<forall>i<length ps. i \<noteq> k \<longrightarrow> ps' ! i = ps ! i) \<and>
               map title ps' = map title ps \<and>
               map price ps' = map price ps \<and>
               map link ps' = map link ps)) \<and>
         (\<forall>e. file_open w = Some e \<longrightarrow>
            fst (scrape_products w st) = Inl e \<and>
            fst (scrape_products (w\<lparr>detail_get := dg, reviews_button := rb,
                                    reviews_header := rh, elem_children := ec\<rparr>) st)
              = Inl e)"
proof -
  let ?w' = "w\<lparr>detail_get := dg, reviews_button := rb, reviews_header := rh,
               elem_children := ec\<rparr>"
  let ?P = "fst (parse_items w (found_items w (Suc (started st))) st)"
  let ?ps = "fst (visit_products w (started st) 0 ?P st)"
  let ?ps' = "fst (visit_products ?w' (started st) 0 ?P st)"
  have l': "launch ?w' (started st) = None" "launch ?w' (Suc (started st)) = None"
    using assms(1,2) by simp_all
  have loop_len: "length (fst (visit_products ?w' c 0 Q s1)) = length Q" for c Q s1
    by (simp add: visit_products_length)
  have loop_nth: "fst (visit_products ?w' c 0 Q s1) ! i = fst (visit_products w c 0 Q s2) ! i"
    if "i < length Q" and "i \<noteq> k" for c Q s1 s2 i
  proof -
    have "detail_get ?w' c i (link (Q ! i)) = detail_get w c i (link (Q ! i))"
      using assms(3) that(2) by simp
    then show ?thesis
      using visit_products_nth[OF that(1), of ?w' c 0 s1 s1]
            visit_products_nth[OF that(1), of w c 0 s2 s2]
      by (simp add: visit_product_fst)
  qed
  have keep: "map title ?ps' = map title ?ps \<and> map price ?ps' = map price ?ps \<and>
              map link ?ps' = map link ?ps"
    using visit_products_keeps[of ?w' "started st" 0 ?P st]
          visit_products_keeps[of w "started st" 0 ?P st] by simp
  have ok: "\<exists>ps ps'.
               fst (scrape_products w st) = Inr ps \<and>
               fst (scrape_products ?w' st) = Inr ps' \<and>
               length ps' = length ps \<and>
               (\<forall>i<length ps. i \<noteq> k \<longrightarrow> ps' ! i = ps ! i) \<and>
               map title ps' = map title ps \<and>
               map price ps' = map price ps \<and>
               map link ps' = map link ps" if f: "file_open w = None"
  proof -
    have f': "file_open ?w' = None" using f by simp
    have r: "fst (scrape_products w st) = Inr ?ps"
      using run_fst[OF assms(1,2) f, of st] .
    have r': "fst (scrape_products ?w' st) = Inr ?ps'"
      using run_fst[OF l' f', of st]
      by (simp only: found_items_detail_indep parse_items_detail_indep)
    have len: "length ?ps' = length ?ps"
      by (simp add: visit_products_length)
    have nth: "?ps' ! i = ?ps ! i" if "i < length ?ps" and "i \<noteq> k" for i
      using that loop_nth[of i ?P "started st" st st] by (simp add: visit_products_length)
    show ?thesis using r r' len nth keep by blast
  qed
  have bad: "fst (scrape_products w st) = Inl e \<and> fst (scrape_products ?w' st) = Inl e"
    if f: "file_open w = Some e" for e
  proof -
    have f': "file_open ?w' = Some e" using f by simp
    show ?thesis
      using run_write_fail[OF assms(1,2) f] run_write_fail[OF l' f'] by simp
  qed
  show ?thesis
    using loop_len[of d P st1] loop_nth[of _ P d st1 st2] ok bad by blast
qed

theorem fault_isolation_witness:
  "\<exists>ps ps'.
      fst (scrape_products (sample_world 3) init_state) = Inr ps \<and>
      fst (scrape_products broken_world init_state) = Inr ps' \<and>
      length ps = 3 \<and> length ps' = 3 \<and> ps' ! 0 = ps ! 0 \<and> ps' ! 2 = ps ! 2 \<and>
      map title ps' = map title ps"
proof -
  let ?dg = "\<lambda>(d::nat) (i::nat) (l::string option). if i = 1 then Some WebDriverException else None"
  have l: "launch (sample_world 3) (started init_state) = None"
          "launch (sample_world 3) (Suc (started init_state)) = None"
    by (simp_all add: sample_world_def)
  have f: "file_open (sample_world 3) = None" by (simp add: sample_world_def)
  have a: "\<forall>d i l. i \<noteq> 1 \<longrightarrow> ?dg d i l = detail_get (sample_world 3) d i l"
    by (simp add: sample_world_def)
  have b: "(sample_world 3)\<lparr>detail_get := ?dg,
              reviews_button := reviews_button (sample_world 3),
              reviews_header := reviews_header (sample_world 3),
              elem_children := elem_children (sample_world 3)\<rparr> = broken_world"
    by (simp add: broken_world_def sample_world_def)
  obtain ps ps' where c:
    "fst (scrape_products (sample_world 3) init_state) = Inr ps"
    "fst (scrape_products broken_world init_state) = Inr ps'"
    "length ps' = length ps"
    "\<forall>i<length ps. i \<noteq> 1 \<longrightarrow> ps' ! i = ps ! i"
    "map title ps' = map title ps"
    using fault_isolation [where rb = "reviews_button (sample_world 3)"
                             and rh = "reviews_header (sample_world 3)"
                             and ec = "elem_children (sample_world 3)", OF l a] f
    unfolding b by blast
  have "length ps = 3" using c(1) by (auto simp: run_sample)
  then show ?thesis using c by auto
qed

text \<open>
  C8. In every run that returns, the products returned and written are at most as many
  as the items found by the search. Every product built by the listing loop is
  returned, with its title, price and link, whatever happens when its reviews are
  opened: a missing review panel drops no record and fails no run. The file holds
  exactly the products returned.
\<close>

theorem records_at_most_items:
  assumes "fst (scrape_products w st) = Inr ps"
  shows "length ps \<le> length (found_items w (Suc (started st))) \<and>
         length ps = length (fst (parse_items w (found_items w (Suc (started st))) st')) \<and>
         map title ps = map title (fst (parse_items w (found_items w (Suc (started st))) st')) \<and>
         map price ps = map price (fst (parse_items w (found_items w (Suc (started st))) st')) \<and>
         map link ps = map link (fst (parse_items w (found_items w (Suc (started st))) st')) \<and>
         saved (snd (scrape_products w st)) = Some (products_json ps)"
proof -
  let ?P = "fst (parse_items w (found_items w (Suc (started st))) st')"
  have l: "launch w (started st) = None" "launch w (Suc (started st)) = None"
          "file_open w = None"
    using run_Inr_launched[OF assms] by simp_all
  have ps: "ps = fst (visit_products w (started st) 0 ?P st')"
    using run_fst[OF l, of st'] assms by simp
  have "length ps = length ?P" using ps by (simp add: visit_products_length)
  moreover have "length ?P \<le> length (found_items w (Suc (started st)))"
    by (rule parse_items_length)
  moreover have "map title ps = map title ?P \<and> map price ps = map price ?P \<and>
                 map link ps = map link ?P"
    using ps visit_products_keeps[of w "started st" 0 ?P st'] by simp
  moreover have "saved (snd (scrape_products w st)) = Some (products_json ps)"
    using assms by (rule run_saved)
  ultimately show ?thesis by simp
qed

theorem records_at_most_items_witness:
  "\<exists>ps. fst (scrape_products no_reviews_world init_state) = Inr ps \<and>
        length ps = 3 \<and>
        length (found_items no_reviews_world 1) = 3 \<and>
        map rating ps = [Some ''N/A'', Some ''N/A'', Some ''N/A''] \<and>
        saved (snd (scrape_products no_reviews_world init_state)) = Some (products_json ps)"
proof -
  have l: "launch no_reviews_world (started init_state) = None"
          "launch no_reviews_world (Suc (started init_state)) = None"
          "file_open no_reviews_world = None"
    by (simp_all add: no_reviews_world_def sample_world_def)
  let ?P = "fst (parse_items no_reviews_world (found_items no_reviews_world (Suc 0)) init_state)"
  let ?ps = "fst (visit_products no_reviews_world 0 0 ?P init_state)"
  have s0: "started init_state = 0" by (simp add: init_state_def)
  have r: "fst (scrape_products no_reviews_world init_state) = Inr ?ps"
    using run_fst[OF l, of init_state] by (simp add: s0)
  have f: "found_items no_reviews_world (Suc 0) = map (\<lambda>i. Handle (Suc 0) [i]) [0..<3]"
    by (simp add: found_items_def search_listing_fst no_reviews_world_def sample_world_def)
  have P: "?P = replicate 3 \<lparr>title = ''text'', price = ''text'',
                   link = Some ''https://www.bestbuy.com/p'', rating = None, review_count = None\<rparr>"
    unfolding f
    by (simp add: parse_items_fst[where ?st0.0 = init_state] parse_item_fst
                  no_reviews_world_def sample_world_def map_replicate_const
             del: parse_items.simps)
  have rt: "map rating ?ps = [Some ''N/A'', Some ''N/A'', Some ''N/A'']"
    unfolding P
    by (simp add: visit_products_fst[where ?st0.0 = init_state] visit_product_fst
                  no_reviews_world_def sample_world_def numeral_3_eq_3 upt_rec
             del: visit_products.simps)
  have sv: "saved (snd (scrape_products no_reviews_world init_state)) = Some (products_json ?ps)"
    using records_at_most_items [OF r, of init_state] by blast
  have len: "length ?ps = 3"
    unfolding P by (simp add: visit_products_length)
  have fl: "length (found_items no_reviews_world 1) = 3"
    using f by simp
  show ?thesis
    by (intro exI[of _ ?ps] conjI r rt len fl sv)
qed

subsection \<open>A search that fails\<close>

text \<open>
  C6, as stated, fails. When the wait for the search box times out, the run does not end
  with an error for its caller: \<open>scrape_products\<close> returns normally, with the empty
  list.
\<close>

theorem search_failure_counterexample:
  "search_box_wait no_search_box_world 1 = Some TimeoutException \<and>
   fst (scrape_products no_search_box_world init_state) = Inr [] \<and>
   \<not> isl (fst (scrape_products no_search_box_world init_state))"
proof -
  have "fst (scrape_products no_search_box_world init_state) = Inr []"
    by (rule run_search_box_missing(4)[where e = TimeoutException])
       (simp_all add: no_search_box_world_def sample_world_def)
  then show ?thesis by (simp add: no_search_box_world_def)
qed

text \<open>
  C6, amended. When both browsers start, the site loads and the search box never
  appears, \<open>scrape_site\<close> catches the failure, prints it, quits its browser and returns
  the empty list: the failure of the search never reaches the caller.
  \<open>scrape_products\<close> goes on with no items and reports 0 products found. When the
  output file can be opened, it writes the empty array, reports 0 saved and returns the
  empty list. When the file cannot be opened, the exception of \<open>open\<close> reaches the
  caller and nothing is written. In both cases both browsers are quit and no session is
  left open.
\<close>

theorem search_failure_gives_empty_run:
  assumes "launch w 0 = None" and "launch w 1 = None"
    and "site_get w 1 ''https://www.bestbuy.com/'' = None"
    and "search_box_wait w 1 = Some e"
  shows "live (snd (scrape_products w init_state)) = [] \<and>
         Released 0 \<in> set (trace (snd (scrape_products w init_state))) \<and>
         Released 1 \<in> set (trace (snd (scrape_products w init_state))) \<and>
         (file_open w = None \<longrightarrow>
            fst (scrape_products w init_state) = Inr [] \<and>
            saved (snd (scrape_products w init_state)) = Some (JArray []) \<and>
            (\<exists>pre. printed (trace (snd (scrape_products w init_state))) =
                     pre @ [ScrapingFailed e, FoundProducts 0, FinalList, Saved 0])) \<and>
         (\<forall>e'. file_open w = Some e' \<longrightarrow>
            fst (scrape_products w init_state) = Inl e' \<and>
            saved (snd (scrape_products w init_state)) = None \<and>
            (\<exists>pre. printed (trace (snd (scrape_products w init_state))) =
                     pre @ [ScrapingFailed e, FoundProducts 0, FinalList]))"
  using run_search_box_missing[OF assms] by blast

theorem search_failure_gives_empty_run_witness:
  "fst (scrape_products no_search_box_world init_state) = Inr [] \<and>
   live (snd (scrape_products no_search_box_world init_state)) = [] \<and>
   saved (snd (scrape_products no_search_box_world init_state)) = Some (JArray []) \<and>
   (\<exists>pre. printed (trace (snd (scrape_products no_search_box_world init_state))) =
            pre @ [ScrapingFailed TimeoutException, FoundProducts 0, FinalList, Saved 0]) \<and>
   fst (scrape_products no_data_dir_world init_state) = Inl FileNotFoundError \<and>
   live (snd (scrape_products no_data_dir_world init_state)) = [] \<and>
   saved (snd (scrape_products no_data_dir_world init_state)) = None"
proof -
  have h: "launch no_search_box_world 0 = None" "launch no_search_box_world 1 = None"
          "site_get no_search_box_world 1 ''https://www.bestbuy.com/'' = None"
          "search_box_wait no_search_box_world 1 = Some TimeoutException"
    by (simp_all add: no_search_box_world_def sample_world_def)
  have h': "launch no_data_dir_world 0 = None" "launch no_data_dir_world 1 = None"
           "site_get no_data_dir_world 1 ''https://www.bestbuy.com/'' = None"
           "search_box_wait no_data_dir_world 1 = Some TimeoutException"
    by (simp_all add: no_data_dir_world_def no_search_box_world_def sample_world_def)
  have f: "file_open no_search_box_world = None"
    by (simp add: no_search_box_world_def sample_world_def)
  have f': "file_open no_data_dir_world = Some FileNotFoundError"
    by (simp add: no_data_dir_world_def)
  show ?thesis
    using search_failure_gives_empty_run [OF h] search_failure_gives_empty_run [OF h'] f f'
    by simp
qed

subsection \<open>Sessions\<close>

text \<open>
  C4 does not hold of the code. On a results page with one item, the run starts two
  browsers, and the item found by the search belongs to the session of \<open>scrape_site\<close>,
  which is quit before \<open>scrape_products\<close> looks up the title, price and link of the
  item: the trace has an operation on an element of a released session, whether the
  lookups succeed or raise.
\<close>

theorem handles_used_after_release:
  "found_items (sample_world 1) 1 = [Handle 1 [0]] \<and>
   started (snd (scrape_products (sample_world 1) init_state)) = 2 \<and>
   stale_use [] (trace (snd (scrape_products (sample_world 1) init_state))) \<and>
   stale_use [] (trace (snd (scrape_products (dead_handles_world 1) init_state)))"
proof -
  have l: "launch (sample_world 1) (started init_state) = None"
          "launch (sample_world 1) (Suc (started init_state)) = None"
    by (simp_all add: sample_world_def)
  have l': "launch (dead_handles_world 1) (started init_state) = None"
           "launch (dead_handles_world 1) (Suc (started init_state)) = None"
    by (simp_all add: dead_handles_world_def sample_world_def)
  have s0: "started init_state = 0" by (simp add: init_state_def)
  have f: "found_items (sample_world 1) (Suc 0) = [Handle (Suc 0) [0]]"
    by (simp add: found_items_sample)
  then have "found_items (sample_world 1) (Suc (started init_state)) \<noteq> []"
    by (simp add: s0)
  then have a: "stale_use [] (trace (snd (scrape_products (sample_world 1) init_state)))"
    by (rule run_stale[OF l])
  have "found_items (dead_handles_world 1) (Suc (started init_state)) \<noteq> []"
    by (simp add: s0 found_items_dead)
  then have b: "stale_use [] (trace (snd (scrape_products (dead_handles_world 1) init_state)))"
    by (rule run_stale[OF l'])
  have c: "started (snd (scrape_products (sample_world 1) init_state)) = 2"
    using run_started[OF l] by (simp add: s0)
  show ?thesis using a b c f by simp
qed

subsection \<open>The output file\<close>

text \<open>
  C5 does not hold of the code. On a results page with one item whose product page
  loads and shows its reviews button, the record written has \<open>rating\<close> and
  \<open>review_count\<close> equal to \<open>"N/A"\<close> and no reviews at all: the read of
  \<open>reviews_container\<close> raises before any review is extracted, and \<open>reviews_data\<close> is
  never stored in the product. On a page with three items where the second product page
  fails to load, the second record written has neither \<open>rating\<close> nor
  \<open>review_count\<close>.
\<close>

theorem output_records_lack_fields:
  "saved (snd (scrape_products (sample_world 1) init_state)) =
     Some (JArray
       [JObject [(''title'', JString ''text''), (''price'', JString ''text''),
                 (''link'', JString ''https://www.bestbuy.com/p''),
                 (''rating'', JString ''N/A''), (''review_count'', JString ''N/A'')]]) \<and>
   saved (snd (scrape_products broken_world init_state)) =
     Some (JArray
       [JObject [(''title'', JString ''text''), (''price'', JString ''text''),
                 (''link'', JString ''https://www.bestbuy.com/p''),
                 (''rating'', JString ''N/A''), (''review_count'', JString ''N/A'')],
        JObject [(''title'', JString ''text''), (''price'', JString ''text''),
                 (''link'', JString ''https://www.bestbuy.com/p'')],
        JObject [(''title'', JString ''text''), (''price'', JString ''text''),
                 (''link'', JString ''https://www.bestbuy.com/p''),
                 (''rating'', JString ''N/A''), (''review_count'', JString ''N/A'')]])"
proof -
  have a: "fst (scrape_products (sample_world 1) init_state) =
             Inr [\<lparr>title = ''text'', price = ''text'',
                   link = Some ''https://www.bestbuy.com/p'',
                   rating = Some ''N/A'', review_count = Some ''N/A''\<rparr>]"
    by (simp add: run_sample)
  show ?thesis
    using run_saved[OF a] run_saved[OF run_broken]
    by (simp add: products_json_def product_json_def)
qed

end
